theory Spec2Isabelle
  imports Complex_Main "HOL-Library.Multiset"
begin

section \<open>The platform: numbers, dates and their ISO strings\<close>

text \<open>
  \<^verbatim>\<open>src/utils/scheduler.ts\<close> computes with three things of the JavaScript platform:
  numbers, \<^verbatim>\<open>Date\<close> objects and the ISO form of a date. Every number the scheduler
  handles is an integer count of milliseconds or days, or \<^verbatim>\<open>NaN\<close>; a number is
  therefore an \<open>int option\<close>, \<open>None\<close> standing for \<^verbatim>\<open>NaN\<close>. (The source's doubles
  are exact on these integers: a time value is at most \<open>8.64 * 10^15 < 2^53\<close>, a
  difference of whole days is a multiple of \<open>2^10\<close>, and on times of day the quotients
  that the scheduler takes round as the exact ones do while the times stay within \<open>2^52\<close>
  milliseconds of the epoch, which is more than 140000 years.) A \<^verbatim>\<open>Date\<close> is its time
  value, \<open>None\<close> being the \<^verbatim>\<open>Invalid Date\<close>.
\<close>

type_synonym number = "int option"
type_synonym Date = "int option"

datatype error = RangeError

definition num_add :: "number \<Rightarrow> number \<Rightarrow> number" where
  "num_add a b = (case (a, b) of (Some x, Some y) \<Rightarrow> Some (x + y) | _ \<Rightarrow> None)"

definition num_sub :: "number \<Rightarrow> number \<Rightarrow> number" where
  "num_sub a b = (case (a, b) of (Some x, Some y) \<Rightarrow> Some (x - y) | _ \<Rightarrow> None)"

text \<open>The relational operators on dates compare the time values; with \<^verbatim>\<open>NaN\<close> on
  either side they are false.\<close>

definition date_lt :: "Date \<Rightarrow> Date \<Rightarrow> bool" where
  "date_lt a b = (case (a, b) of (Some x, Some y) \<Rightarrow> x < y | _ \<Rightarrow> False)"

definition date_gt :: "Date \<Rightarrow> Date \<Rightarrow> bool" where
  "date_gt a b = (case (a, b) of (Some x, Some y) \<Rightarrow> x > y | _ \<Rightarrow> False)"

subsection \<open>Days, years and months (ECMAScript, Time Values and Time Range)\<close>

definition msPerDay :: int where
  "msPerDay = 86400000"

definition maxTime :: int where
  "maxTime = 8640000000000000"

text \<open>\<^verbatim>\<open>TimeClip\<close>: a time value beyond \<open>8.64 * 10^15\<close> milliseconds is \<^verbatim>\<open>NaN\<close>.
  \<^verbatim>\<open>new Date(n)\<close> on a number \<open>n\<close> is the date of time value \<open>TimeClip n\<close>.\<close>

definition TimeClip :: "number \<Rightarrow> Date" where
  "TimeClip t = (case t of None \<Rightarrow> None
                 | Some v \<Rightarrow> if \<bar>v\<bar> > maxTime then None else Some v)"

definition InLeapYear :: "int \<Rightarrow> int" where
  "InLeapYear y = (if y mod 4 \<noteq> 0 then 0 else if y mod 100 \<noteq> 0 then 1
                   else if y mod 400 \<noteq> 0 then 0 else 1)"

definition DaysInYear :: "int \<Rightarrow> int" where
  "DaysInYear y = 365 + InLeapYear y"

definition DayFromYear :: "int \<Rightarrow> int" where
  "DayFromYear y = 365 * (y - 1970) + (y - 1969) div 4 - (y - 1901) div 100
                   + (y - 1601) div 400"

text \<open>
  \<^verbatim>\<open>YearFromTime\<close> is specified as the largest year whose first day is not after the
  given day. It is computed here from the mean length of a year, corrected by at most one
  year; lemma \<open>YearFromDay_spec\<close> below shows that this is the specified year.
\<close>

definition YearFromDay :: "int \<Rightarrow> int" where
  "YearFromDay d =
     (let y0 = 1970 + (400 * d) div 146097
      in if DayFromYear (y0 + 1) \<le> d then y0 + 1
         else if DayFromYear y0 \<le> d then y0
         else y0 - 1)"

definition Day :: "int \<Rightarrow> int" where
  "Day t = t div msPerDay"

definition TimeWithinDay :: "int \<Rightarrow> int" where
  "TimeWithinDay t = t mod msPerDay"

text \<open>The day number within the year at which month \<open>m\<close> (0 to 11) starts; \<open>12\<close> gives
  the length of the year.\<close>

definition MonthStart :: "int \<Rightarrow> nat \<Rightarrow> int" where
  "MonthStart leap m =
     (if m = 0 then 0 else if m = 1 then 31 else if m = 2 then 59 + leap
      else if m = 3 then 90 + leap else if m = 4 then 120 + leap
      else if m = 5 then 151 + leap else if m = 6 then 181 + leap
      else if m = 7 then 212 + leap else if m = 8 then 243 + leap
      else if m = 9 then 273 + leap else if m = 10 then 304 + leap
      else if m = 11 then 334 + leap else 365 + leap)"

definition DayWithinYear :: "int \<Rightarrow> int" where
  "DayWithinYear d = d - DayFromYear (YearFromDay d)"

definition MonthFromDay :: "int \<Rightarrow> nat" where
  "MonthFromDay d =
     (let w = DayWithinYear d; leap = InLeapYear (YearFromDay d)
      in if w < MonthStart leap 1 then 0 else if w < MonthStart leap 2 then 1
         else if w < MonthStart leap 3 then 2 else if w < MonthStart leap 4 then 3
         else if w < MonthStart leap 5 then 4 else if w < MonthStart leap 6 then 5
         else if w < MonthStart leap 7 then 6 else if w < MonthStart leap 8 then 7
         else if w < MonthStart leap 9 then 8 else if w < MonthStart leap 10 then 9
         else if w < MonthStart leap 11 then 10 else 11)"

definition DateFromDay :: "int \<Rightarrow> int" where
  "DateFromDay d =
     DayWithinYear d - MonthStart (InLeapYear (YearFromDay d)) (MonthFromDay d) + 1"

definition DaysInMonth :: "int \<Rightarrow> nat \<Rightarrow> int" where
  "DaysInMonth y m = MonthStart (InLeapYear y) (Suc m) - MonthStart (InLeapYear y) m"

text \<open>\<^verbatim>\<open>MakeDay\<close> for a month in range: the day number of the given calendar date.\<close>

definition MakeDay :: "int \<Rightarrow> nat \<Rightarrow> int \<Rightarrow> int" where
  "MakeDay y m dt = DayFromYear y + MonthStart (InLeapYear y) m + dt - 1"

subsection \<open>Decimal digits\<close>

definition digit :: "nat \<Rightarrow> char" where
  "digit n = ''0123456789'' ! (n mod 10)"

definition digitVal :: "char \<Rightarrow> nat option" where
  "digitVal c = map_of (zip ''0123456789'' [0, 1, 2, 3, 4, 5, 6, 7, 8, 9]) c"

text \<open>\<open>pad n k\<close> is \<open>k\<close> in decimal on \<open>n\<close> digits, zero-padded
  (\<^verbatim>\<open>padStart(n, '0')\<close> of a number that fits).\<close>

fun pad :: "nat \<Rightarrow> nat \<Rightarrow> string" where
  "pad 0 k = []"
| "pad (Suc n) k = pad n (k div 10) @ [digit k]"

fun digitsVal :: "nat \<Rightarrow> string \<Rightarrow> nat option" where
  "digitsVal acc [] = Some acc"
| "digitsVal acc (c # cs) =
     (case digitVal c of None \<Rightarrow> None | Some v \<Rightarrow> digitsVal (10 * acc + v) cs)"

text \<open>A number as a template literal writes it: decimal, no padding.\<close>

fun string_of_nat :: "nat \<Rightarrow> string" where
  "string_of_nat n =
     (if n < 10 then [digit n] else string_of_nat (n div 10) @ [digit n])"

declare string_of_nat.simps [simp del]

definition string_of_number :: "number \<Rightarrow> string" where
  "string_of_number x =
     (case x of None \<Rightarrow> ''NaN''
      | Some v \<Rightarrow> if v < 0 then ''-'' @ string_of_nat (nat (- v)) else string_of_nat (nat v))"

subsection \<open>Parsing and printing dates\<close>

text \<open>
  \<^verbatim>\<open>new Date(s)\<close> on the ECMAScript date-time string format. The date is
  \<^verbatim>\<open>YYYY\<close>, \<^verbatim>\<open>YYYY-MM\<close> or \<^verbatim>\<open>YYYY-MM-DD\<close>, the year being four digits or a sign
  and six digits (the expanded years that \<^verbatim>\<open>toISOString\<close> writes; \<^verbatim>\<open>-000000\<close> is not
  a year). A time may follow, \<^verbatim>\<open>THH:mm\<close>, \<^verbatim>\<open>THH:mm:ss\<close> or \<^verbatim>\<open>THH:mm:ss.sss\<close>,
  and then an offset, \<^verbatim>\<open>Z\<close>, \<^verbatim>\<open>+HH:mm\<close> or \<^verbatim>\<open>-HH:mm\<close>. A date with no time is UTC
  midnight; a time with no offset is local time, and the host is taken to run in UTC
  (\<open>LocalTZA\<close>). The month is 01 to 12. The day is 01 to 31 in every month, and a day
  that the month does not have runs into the next month, as V8 (Node, Chrome) reads it:
  the format leaves such a string to the implementation. Other strings, which the format
  leaves to the implementation too, give the \<^verbatim>\<open>Invalid Date\<close> here; no property below
  depends on them.
\<close>

definition LocalTZA :: int where
  "LocalTZA = 0"

text \<open>The day number of the date in year \<open>yr\<close> whose month and day are written in \<open>s\<close>:
  nothing, \<^verbatim>\<open>-MM\<close> or \<^verbatim>\<open>-MM-DD\<close>.\<close>

definition monthDay :: "int \<Rightarrow> string \<Rightarrow> int option" where
  "monthDay yr s =
     (if s = [] then Some (MakeDay yr 0 1)
      else if length s = 3 \<and> s ! 0 = CHR ''-'' then
        (case digitsVal 0 (drop 1 s) of
           Some m \<Rightarrow> if 1 \<le> m \<and> m \<le> 12 then Some (MakeDay yr (m - 1) 1) else None
         | None \<Rightarrow> None)
      else if length s = 6 \<and> s ! 0 = CHR ''-'' \<and> s ! 3 = CHR ''-'' then
        (case (digitsVal 0 (take 2 (drop 1 s)), digitsVal 0 (drop 4 s)) of
           (Some m, Some d) \<Rightarrow>
             if 1 \<le> m \<and> m \<le> 12 \<and> 1 \<le> d \<and> d \<le> 31
             then Some (MakeDay yr (m - 1) (int d)) else None
         | _ \<Rightarrow> None)
      else None)"

definition isSign :: "char \<Rightarrow> bool" where
  "isSign c = (c = CHR ''+'' \<or> c = CHR ''-'')"

definition parseDate :: "string \<Rightarrow> int option" where
  "parseDate s =
     (if s \<noteq> [] \<and> isSign (hd s) then
        (if length s < 7 then None
         else case digitsVal 0 (take 6 (drop 1 s)) of
                Some y \<Rightarrow>
                  if hd s = CHR ''-'' then
                    (if y = 0 then None else monthDay (- int y) (drop 7 s))
                  else monthDay (int y) (drop 7 s)
              | None \<Rightarrow> None)
      else
        (if length s < 4 then None
         else case digitsVal 0 (take 4 s) of
                Some y \<Rightarrow> monthDay (int y) (drop 4 s)
              | None \<Rightarrow> None))"

text \<open>The milliseconds of the day of a time \<^verbatim>\<open>HH:mm\<close>, \<^verbatim>\<open>HH:mm:ss\<close> or
  \<^verbatim>\<open>HH:mm:ss.sss\<close>; the hour 24 is the end of the day.\<close>

definition hms :: "string \<Rightarrow> string \<Rightarrow> string \<Rightarrow> string \<Rightarrow> int option" where
  "hms hs ms ss fs =
     (case (digitsVal 0 hs, digitsVal 0 ms, digitsVal 0 ss, digitsVal 0 fs) of
        (Some h, Some m, Some sec, Some f) \<Rightarrow>
          if (h \<le> 23 \<and> m \<le> 59 \<and> sec \<le> 59) \<or> (h = 24 \<and> m = 0 \<and> sec = 0 \<and> f = 0)
          then Some (int h * 3600000 + int m * 60000 + int sec * 1000 + int f)
          else None
      | _ \<Rightarrow> None)"

definition clock :: "string \<Rightarrow> int option" where
  "clock s =
     (if length s = 5 \<and> s ! 2 = CHR '':'' then
        hms (take 2 s) (drop 3 s) ''00'' ''000''
      else if length s = 8 \<and> s ! 2 = CHR '':'' \<and> s ! 5 = CHR '':'' then
        hms (take 2 s) (take 2 (drop 3 s)) (drop 6 s) ''000''
      else if length s = 12 \<and> s ! 2 = CHR '':'' \<and> s ! 5 = CHR '':'' \<and> s ! 8 = CHR ''.'' then
        hms (take 2 s) (take 2 (drop 3 s)) (take 2 (drop 6 s)) (drop 9 s)
      else None)"

text \<open>The offset of the written time from UTC, in milliseconds.\<close>

definition offset :: "string \<Rightarrow> int option" where
  "offset s =
     (if s = [] then Some LocalTZA
      else if s = ''Z'' then Some 0
      else if length s = 6 \<and> isSign (s ! 0) \<and> s ! 3 = CHR '':'' then
        (case (digitsVal 0 (take 2 (drop 1 s)), digitsVal 0 (drop 4 s)) of
           (Some h, Some m) \<Rightarrow>
             if h \<le> 23 \<and> m \<le> 59
             then Some ((if s ! 0 = CHR ''-'' then - 1 else 1)
                          * (int h * 3600000 + int m * 60000))
             else None
         | _ \<Rightarrow> None)
      else None)"

definition inClock :: "char \<Rightarrow> bool" where
  "inClock c = (c \<noteq> CHR ''Z'' \<and> \<not> isSign c)"

definition parseTime :: "string \<Rightarrow> int option" where
  "parseTime s =
     (case (clock (takeWhile inClock s), offset (dropWhile inClock s)) of
        (Some t, Some z) \<Rightarrow> Some (t - z)
      | _ \<Rightarrow> None)"

definition Date_of_string :: "string \<Rightarrow> Date" where
  "Date_of_string s =
     (let d = takeWhile (\<lambda>c. c \<noteq> CHR ''T'') s;
          r = dropWhile (\<lambda>c. c \<noteq> CHR ''T'') s
      in case parseDate d of
           None \<Rightarrow> None
         | Some day \<Rightarrow>
             if r = [] then TimeClip (Some (day * msPerDay))
             else (case parseTime (tl r) of
                     None \<Rightarrow> None
                   | Some ms \<Rightarrow> TimeClip (Some (day * msPerDay + ms))))"

definition getTime :: "Date \<Rightarrow> number" where
  "getTime d = d"

definition isoYear :: "int \<Rightarrow> string" where
  "isoYear y =
     (if 0 \<le> y \<and> y \<le> 9999 then pad 4 (nat y)
      else (if y < 0 then ''-'' else ''+'') @ pad 6 (nat \<bar>y\<bar>))"

definition isoDate :: "int \<Rightarrow> string" where
  "isoDate d =
     isoYear (YearFromDay d) @ ''-'' @ pad 2 (Suc (MonthFromDay d)) @ ''-''
       @ pad 2 (nat (DateFromDay d))"

definition isoTime :: "int \<Rightarrow> string" where
  "isoTime w =
     pad 2 (nat (w div 3600000)) @ '':'' @ pad 2 (nat (w div 60000 mod 60)) @ '':''
       @ pad 2 (nat (w div 1000 mod 60)) @ ''.'' @ pad 3 (nat (w mod 1000))"

text \<open>\<^verbatim>\<open>toISOString\<close> throws a \<^verbatim>\<open>RangeError\<close> on the \<^verbatim>\<open>Invalid Date\<close>.\<close>

definition toISOString :: "Date \<Rightarrow> error + string" where
  "toISOString d =
     (case d of None \<Rightarrow> Inl RangeError
      | Some t \<Rightarrow> Inr (isoDate (Day t) @ ''T'' @ isoTime (TimeWithinDay t) @ ''Z''))"

text \<open>\<^verbatim>\<open>s.split('T')[0]\<close>: the part of \<open>s\<close> before its first \<^verbatim>\<open>T\<close>.\<close>

definition split_T_0 :: "string \<Rightarrow> string" where
  "split_T_0 s = takeWhile (\<lambda>c. c \<noteq> CHR ''T'') s"


section \<open>The data model (\<^verbatim>\<open>types.ts\<close>)\<close>

text \<open>An optional property is an \<open>option\<close>: \<open>None\<close> is \<^verbatim>\<open>undefined\<close>, whether the
  property is absent or holds \<^verbatim>\<open>undefined\<close>.\<close>

record LastEditedBy =
  editor_email :: string
  editor_at :: string

record SubTask =
  subtask_id :: string
  subtask_title :: string
  subtask_isCompleted :: bool
  subtask_notes :: "string option"
  subtask_lastEditedBy :: "LastEditedBy option"

record Resource =
  resource_id :: string
  resource_title :: string
  resource_url :: string

datatype Priority = High | Medium | Low

record Task =
  task_id :: string
  task_title :: string
  task_description :: string
  estimatedMinutes :: int
  isCompleted :: bool
  completedAt :: "string option"
  priority :: Priority
  startDate :: "string option"
  endDate :: "string option"
  task_notes :: "string option"
  subTasks :: "SubTask list option"
  resources :: "Resource list option"
  lastEditedBy :: "LastEditedBy option"

record Module =
  module_id :: string
  module_title :: string
  module_description :: string
  tasks :: "Task list"
  isExpanded :: "bool option"

datatype Role = owner | editor
datatype Status = pending | accepted

record Collaborator =
  collaborator_email :: string
  collaborator_role :: Role
  collaborator_status :: "Status option"

record Roadmap =
  roadmap_id :: "string option"
  createdAt :: "string option"
  roadmap_title :: string
  roadmap_description :: string
  totalTimeEstimate :: string
  modules :: "Module list"
  user_id :: "string option"
  owner_email :: "string option"
  collaborators :: "Collaborator list option"

text \<open>An optional string in a condition: \<^verbatim>\<open>undefined\<close> and the empty string are
  falsy. \<open>str\<close> reads the string where the condition has shown there is one.\<close>

definition truthy :: "string option \<Rightarrow> bool" where
  "truthy x = (case x of None \<Rightarrow> False | Some s \<Rightarrow> s \<noteq> [])"

definition str :: "string option \<Rightarrow> string" where
  "str x = (case x of None \<Rightarrow> [] | Some s \<Rightarrow> s)"

section \<open>The scheduler (\<^verbatim>\<open>src/utils/scheduler.ts\<close>)\<close>

subsection \<open>\<^verbatim>\<open>addTime\<close>\<close>

definition addTime :: "string \<Rightarrow> number \<Rightarrow> error + string" where
  "addTime dateStr diffMs =
     (if dateStr = [] then Inr []
      else
        let date = Date_of_string dateStr;
            newDate = TimeClip (num_add (getTime date) diffMs)
        in case toISOString newDate of
             Inl e \<Rightarrow> Inl e
           | Inr isoStr \<Rightarrow> Inr (split_T_0 isoStr))"

subsection \<open>\<^verbatim>\<open>recalculateTotalTime\<close>\<close>

text \<open>The three variables of the scan, and the body of the inner \<^verbatim>\<open>forEach\<close>.\<close>

record Scan =
  minDate :: Date
  maxDate :: Date
  hasDates :: bool

definition scanTask :: "Task \<Rightarrow> Scan \<Rightarrow> Scan" where
  "scanTask task s =
     (let s1 =
        (if truthy (startDate task) then
           (let start = Date_of_string (str (startDate task))
            in (if date_lt start (minDate s) then s\<lparr>minDate := start\<rparr> else s)
                 \<lparr>hasDates := True\<rparr>)
         else s)
      in if truthy (endDate task) then
           (let endD = Date_of_string (str (endDate task))
            in if date_gt endD (maxDate s1) then s1\<lparr>maxDate := endD\<rparr> else s1)
         else if truthy (startDate task) then
           (let start = Date_of_string (str (startDate task))
            in if date_gt start (maxDate s1) then s1\<lparr>maxDate := start\<rparr> else s1)
         else s1)"

definition scanModules :: "Module list \<Rightarrow> Scan \<Rightarrow> Scan" where
  "scanModules ms s = fold (\<lambda>modl. fold scanTask (tasks modl)) ms s"

text \<open>\<^verbatim>\<open>Math.abs\<close>, \<^verbatim>\<open>Math.ceil(x / d)\<close> and \<^verbatim>\<open>Math.round(x / d)\<close> (which rounds
  a half up) on an integer \<open>x\<close> and a positive integer \<open>d\<close>, and \<^verbatim>\<open>>\<close>; all of them
  give \<^verbatim>\<open>NaN\<close>, or false, on \<^verbatim>\<open>NaN\<close>.\<close>

definition Math_abs :: "number \<Rightarrow> number" where
  "Math_abs x = map_option abs x"

definition Math_ceil_div :: "number \<Rightarrow> int \<Rightarrow> number" where
  "Math_ceil_div x d = map_option (\<lambda>v. - ((- v) div d)) x"

definition Math_round_div :: "number \<Rightarrow> int \<Rightarrow> number" where
  "Math_round_div x d = map_option (\<lambda>v. (2 * v + d) div (2 * d)) x"

definition num_gt :: "number \<Rightarrow> int \<Rightarrow> bool" where
  "num_gt x c = (case x of None \<Rightarrow> False | Some v \<Rightarrow> v > c)"

definition recalculateTotalTime :: "Module list \<Rightarrow> string" where
  "recalculateTotalTime ms =
     (let s = scanModules ms
                \<lparr>minDate = TimeClip (Some 8640000000000000),
                 maxDate = TimeClip (Some (- 8640000000000000)),
                 hasDates = False\<rparr>
      in if \<not> hasDates s then ''Not scheduled''
         else
           let diffTime = Math_abs (num_sub (getTime (maxDate s)) (getTime (minDate s)));
               diffDays = num_add (Math_ceil_div diffTime (1000 * 60 * 60 * 24)) (Some 1)
           in if num_gt diffDays 30
              then (let weeks = Math_round_div diffDays 7
                    in string_of_number weeks @ '' weeks'')
              else string_of_number diffDays @ '' days'')"

subsection \<open>\<^verbatim>\<open>rescheduleRoadmap\<close>\<close>

text \<open>The callback of the inner \<^verbatim>\<open>map\<close> of the cascade. It reads and sets the flag
  \<^verbatim>\<open>foundMovedTask\<close>, so it takes the flag and returns it; \<^verbatim>\<open>addTime\<close> may throw,
  so it returns an error or the new task.\<close>

definition shiftEnd :: "Task \<Rightarrow> number \<Rightarrow> error + string option" where
  "shiftEnd t diffMs =
     (if truthy (endDate t) then map_sum id Some (addTime (str (endDate t)) diffMs)
      else Inr None)"

definition shiftTask ::
  "string \<Rightarrow> string \<Rightarrow> number \<Rightarrow> bool \<Rightarrow> Task \<Rightarrow> error + (Task \<times> bool)" where
  "shiftTask movedId newStartDate diffMs foundMovedTask t =
     (if task_id t = movedId then
        (case shiftEnd t diffMs of
           Inl e \<Rightarrow> Inl e
         | Inr e' \<Rightarrow> Inr (t\<lparr>startDate := Some newStartDate, endDate := e'\<rparr>, True))
      else if foundMovedTask \<and> truthy (startDate t) then
        (case addTime (str (startDate t)) diffMs of
           Inl e \<Rightarrow> Inl e
         | Inr s' \<Rightarrow>
             (case shiftEnd t diffMs of
                Inl e \<Rightarrow> Inl e
              | Inr e' \<Rightarrow> Inr (t\<lparr>startDate := Some s', endDate := e'\<rparr>, foundMovedTask)))
      else Inr (t, foundMovedTask))"

fun shiftTasks ::
  "string \<Rightarrow> string \<Rightarrow> number \<Rightarrow> bool \<Rightarrow> Task list \<Rightarrow> error + (Task list \<times> bool)" where
  "shiftTasks movedId newStartDate diffMs found [] = Inr ([], found)"
| "shiftTasks movedId newStartDate diffMs found (t # ts) =
     (case shiftTask movedId newStartDate diffMs found t of
        Inl e \<Rightarrow> Inl e
      | Inr (t', found') \<Rightarrow>
          (case shiftTasks movedId newStartDate diffMs found' ts of
             Inl e \<Rightarrow> Inl e
           | Inr (ts', found'') \<Rightarrow> Inr (t' # ts', found'')))"

fun shiftModules ::
  "string \<Rightarrow> string \<Rightarrow> number \<Rightarrow> bool \<Rightarrow> Module list \<Rightarrow> error + Module list" where
  "shiftModules movedId newStartDate diffMs found [] = Inr []"
| "shiftModules movedId newStartDate diffMs found (modl # ms) =
     (case shiftTasks movedId newStartDate diffMs found (tasks modl) of
        Inl e \<Rightarrow> Inl e
      | Inr (newTasks, found') \<Rightarrow>
          (case shiftModules movedId newStartDate diffMs found' ms of
             Inl e \<Rightarrow> Inl e
           | Inr ms' \<Rightarrow> Inr (modl\<lparr>tasks := newTasks\<rparr> # ms')))"

text \<open>\<^verbatim>\<open>originalTask?.startDate\<close>, with \<^verbatim>\<open>originalTask\<close> found by the two
  \<^verbatim>\<open>find\<close> calls.\<close>

definition originalStartDate :: "Roadmap \<Rightarrow> Task \<Rightarrow> string option" where
  "originalStartDate roadmap movedTask =
     (let originalModule =
            find (\<lambda>m. list_ex (\<lambda>t. task_id t = task_id movedTask) (tasks m))
              (modules roadmap);
          originalTask =
            (case originalModule of None \<Rightarrow> None
             | Some m \<Rightarrow> find (\<lambda>t. task_id t = task_id movedTask) (tasks m))
      in case originalTask of None \<Rightarrow> None | Some t \<Rightarrow> startDate t)"

definition rescheduleRoadmap :: "Roadmap \<Rightarrow> Task \<Rightarrow> string \<Rightarrow> error + Roadmap" where
  "rescheduleRoadmap roadmap movedTask newStartDate =
     (let original = originalStartDate roadmap movedTask
      in if \<not> truthy original \<or> newStartDate = [] \<or> original = Some newStartDate then
           (let updatedModules =
                  map (\<lambda>modl. modl\<lparr>tasks :=
                         map (\<lambda>t. if task_id t = task_id movedTask
                                   then t\<lparr>startDate := Some newStartDate\<rparr> else t)
                           (tasks modl)\<rparr>)
                    (modules roadmap)
            in Inr (roadmap\<lparr>modules := updatedModules\<rparr>))
         else
           (let oldStart = getTime (Date_of_string (str original));
                newStart = getTime (Date_of_string newStartDate);
                diffMs = num_sub newStart oldStart
            in case shiftModules (task_id movedTask) newStartDate diffMs False
                      (modules roadmap) of
                 Inl e \<Rightarrow> Inl e
               | Inr updatedModules \<Rightarrow>
                   (let newTotalTime = recalculateTotalTime updatedModules
                    in Inr (roadmap\<lparr>modules := updatedModules,
                                     totalTimeEstimate := newTotalTime\<rparr>))))"

section \<open>Notions used to state the properties\<close>

text \<open>The global linear order of the tasks: modules in stored order, tasks in stored order
  within each module.\<close>

definition allTasks :: "Module list \<Rightarrow> Task list" where
  "allTasks ms = concat (map tasks ms)"

definition dates :: "Task \<Rightarrow> string option \<times> string option" where
  "dates t = (startDate t, endDate t)"

text \<open>What a task with the given pair of dates offers to the minimum and to the maximum of
  the scan: its start, and its end or else its start.\<close>

definition startTime :: "string option \<times> string option \<Rightarrow> Date" where
  "startTime p = (if truthy (fst p) then Date_of_string (str (fst p)) else None)"

definition endTime :: "string option \<times> string option \<Rightarrow> Date" where
  "endTime p =
     (if truthy (snd p) then Date_of_string (str (snd p))
      else if truthy (fst p) then Date_of_string (str (fst p)) else None)"

definition startTimes :: "Task list \<Rightarrow> int list" where
  "startTimes ts = List.map_filter (\<lambda>t. startTime (dates t)) ts"

definition endTimes :: "Task list \<Rightarrow> int list" where
  "endTimes ts = List.map_filter (\<lambda>t. endTime (dates t)) ts"

text \<open>The summary as the specification words it, over the reals: the inclusive number of
  days between the least start and the greatest end, and its presentation.\<close>

definition spanDays :: "Module list \<Rightarrow> int" where
  "spanDays ms =
     (let minD = Min (set (startTimes (allTasks ms)));
          maxD = Max (set (endTimes (allTasks ms)))
      in \<lceil>real_of_int \<bar>maxD - minD\<bar> / 86400000\<rceil> + 1)"

definition summary :: "int \<Rightarrow> string" where
  "summary diffDays =
     (if diffDays > 30 then string_of_nat (nat (round (real_of_int diffDays / 7))) @ '' weeks''
      else string_of_nat (nat diffDays) @ '' days'')"

text \<open>Every date the task carries is one that \<^verbatim>\<open>new Date\<close> reads, with or without a
  time of day, as a time within \<open>2^52\<close> milliseconds of the epoch.\<close>

definition readable :: "string \<Rightarrow> bool" where
  "readable s = (case Date_of_string s of None \<Rightarrow> False | Some v \<Rightarrow> \<bar>v\<bar> < 2 ^ 52)"

definition validDates :: "Task \<Rightarrow> bool" where
  "validDates t =
     ((if truthy (startDate t) then readable (str (startDate t)) else True) \<and>
      (if truthy (endDate t) then readable (str (endDate t)) else True))"

text \<open>A well-formed date is a string of the form \<^verbatim>\<open>YYYY-MM-DD\<close> that \<^verbatim>\<open>new Date\<close>
  reads; a well-formed task has well-formed dates where it has dates.\<close>

definition wellFormedDate :: "string \<Rightarrow> bool" where
  "wellFormedDate s =
     (length s = 10 \<and> s ! 4 = CHR ''-'' \<and> s ! 7 = CHR ''-'' \<and> Date_of_string s \<noteq> None)"

definition wellFormedTask :: "Task \<Rightarrow> bool" where
  "wellFormedTask t =
     ((if truthy (startDate t) then wellFormedDate (str (startDate t)) else True) \<and>
      (if truthy (endDate t) then wellFormedDate (str (endDate t)) else True))"

text \<open>Frames: a task equal to another but for its two dates, a module equal to another
  but for the dates of its tasks, a roadmap equal to another but for the dates of its tasks
  and its \<^verbatim>\<open>totalTimeEstimate\<close>.\<close>

definition sameButDates :: "Task \<Rightarrow> Task \<Rightarrow> bool" where
  "sameButDates t t' =
     (task_id t' = task_id t \<and> task_title t' = task_title t \<and>
      task_description t' = task_description t \<and> estimatedMinutes t' = estimatedMinutes t \<and>
      isCompleted t' = isCompleted t \<and> completedAt t' = completedAt t \<and>
      priority t' = priority t \<and> task_notes t' = task_notes t \<and> subTasks t' = subTasks t \<and>
      resources t' = resources t \<and> lastEditedBy t' = lastEditedBy t)"

definition sameButTasks :: "Module \<Rightarrow> Module \<Rightarrow> bool" where
  "sameButTasks m m' =
     (module_id m' = module_id m \<and> module_title m' = module_title m \<and>
      module_description m' = module_description m \<and> isExpanded m' = isExpanded m \<and>
      list_all2 sameButDates (tasks m) (tasks m'))"

definition sameButModules :: "Roadmap \<Rightarrow> Roadmap \<Rightarrow> bool" where
  "sameButModules r r' =
     (roadmap_id r' = roadmap_id r \<and> createdAt r' = createdAt r \<and>
      roadmap_title r' = roadmap_title r \<and> roadmap_description r' = roadmap_description r \<and>
      user_id r' = user_id r \<and> owner_email r' = owner_email r \<and>
      collaborators r' = collaborators r \<and>
      list_all2 sameButTasks (modules r) (modules r'))"

text \<open>The cascade, task by task, for a shift of \<open>delta\<close> milliseconds: the end date of
  \<open>t'\<close> is that of \<open>t\<close> shifted by \<^verbatim>\<open>addTime\<close>, or absent when \<open>t\<close> has none;
  \<open>t'\<close> is \<open>t\<close> moved to the new start date; \<open>t'\<close> is \<open>t\<close> with both dates shifted, or
  \<open>t\<close> itself when \<open>t\<close> has no start date.\<close>

definition endShifted :: "number \<Rightarrow> Task \<Rightarrow> Task \<Rightarrow> bool" where
  "endShifted delta t t' =
     (if truthy (endDate t)
      then (case endDate t' of None \<Rightarrow> False
            | Some e \<Rightarrow> addTime (str (endDate t)) delta = Inr e)
      else endDate t' = None)"

definition movedTo :: "string \<Rightarrow> number \<Rightarrow> Task \<Rightarrow> Task \<Rightarrow> bool" where
  "movedTo newStartDate delta t t' =
     (startDate t' = Some newStartDate \<and> endShifted delta t t' \<and> sameButDates t t')"

definition shiftedBy :: "number \<Rightarrow> Task \<Rightarrow> Task \<Rightarrow> bool" where
  "shiftedBy delta t t' =
     (if truthy (startDate t)
      then (case startDate t' of None \<Rightarrow> False
            | Some s \<Rightarrow> addTime (str (startDate t)) delta = Inr s) \<and>
           endShifted delta t t' \<and> sameButDates t t'
      else t' = t)"

definition shiftedModule :: "number \<Rightarrow> Module \<Rightarrow> Module \<Rightarrow> bool" where
  "shiftedModule delta m m' =
     (m' = m\<lparr>tasks := tasks m'\<rparr> \<and> list_all2 (shiftedBy delta) (tasks m) (tasks m'))"

text \<open>The update that the fast path applies to every task.\<close>

definition setStart :: "string \<Rightarrow> string \<Rightarrow> Task \<Rightarrow> Task" where
  "setStart movedId newStartDate t =
     (if task_id t = movedId then t\<lparr>startDate := Some newStartDate\<rparr> else t)"

subsection \<open>Example data\<close>

definition exampleTask :: "string \<Rightarrow> string option \<Rightarrow> string option \<Rightarrow> Task" where
  "exampleTask i s e =
     \<lparr>task_id = i, task_title = ''Read'', task_description = [], estimatedMinutes = 30,
      isCompleted = False, completedAt = None, priority = Medium, startDate = s,
      endDate = e, task_notes = None, subTasks = None, resources = None,
      lastEditedBy = None\<rparr>"

definition exampleModule :: "string \<Rightarrow> Task list \<Rightarrow> Module" where
  "exampleModule i ts =
     \<lparr>module_id = i, module_title = ''Basics'', module_description = [], tasks = ts,
      isExpanded = None\<rparr>"

definition exampleRoadmap :: "string \<Rightarrow> Module list \<Rightarrow> Roadmap" where
  "exampleRoadmap estimate ms =
     \<lparr>roadmap_id = None, createdAt = None, roadmap_title = ''Plan'',
      roadmap_description = [], totalTimeEstimate = estimate, modules = ms, user_id = None,
      owner_email = None, collaborators = None\<rparr>"

text \<open>The scenario of the specification: module A holds X (2024-01-01) and Y (2024-01-03),
  module B holds Z (2024-01-05); here Z also has an end date, and a task W with no date
  follows it.\<close>

definition scenario :: "Module list" where
  "scenario =
     [exampleModule ''A''
        [exampleTask ''X'' (Some ''2024-01-01'') None,
         exampleTask ''Y'' (Some ''2024-01-03'') None],
      exampleModule ''B''
        [exampleTask ''Z'' (Some ''2024-01-05'') (Some ''2024-01-05''),
         exampleTask ''W'' None None]]"

text \<open>The scenario after X has been moved to 2024-01-02.\<close>

definition scenarioMoved :: "Module list" where
  "scenarioMoved =
     [exampleModule ''A''
        [exampleTask ''X'' (Some ''2024-01-02'') None,
         exampleTask ''Y'' (Some ''2024-01-04'') None],
      exampleModule ''B''
        [exampleTask ''Z'' (Some ''2024-01-06'') (Some ''2024-01-06''),
         exampleTask ''W'' None None]]"

text \<open>A roadmap whose only task has no date yet.\<close>

definition unscheduled :: "Roadmap" where
  "unscheduled =
     exampleRoadmap ''Not scheduled'' [exampleModule ''A'' [exampleTask ''X'' None None]]"

text \<open>The scenario with the start date of Y emptied.\<close>

definition scenarioCleared :: "Module list" where
  "scenarioCleared =
     [exampleModule ''A''
        [exampleTask ''X'' (Some ''2024-01-01'') None,
         exampleTask ''Y'' (Some []) None],
      exampleModule ''B''
        [exampleTask ''Z'' (Some ''2024-01-05'') (Some ''2024-01-05''),
         exampleTask ''W'' None None]]"

text \<open>Dates with a time of day: two and a half days apart, which count as four
  days.\<close>

definition scenarioTimed :: "Module list" where
  "scenarioTimed =
     [exampleModule ''A''
        [exampleTask ''P'' (Some ''2024-01-01T08:00:00Z'') (Some ''2024-01-03T20:00:00Z'')]]"

text \<open>Thirty-six days, which round down to five weeks; and sixty days and a half, which count
  as sixty-two days and round up to nine weeks.\<close>

definition scenarioLong :: "Module list" where
  "scenarioLong =
     [exampleModule ''A'' [exampleTask ''P'' (Some ''2024-01-01'') (Some ''2024-02-05'')]]"

definition scenarioLonger :: "Module list" where
  "scenarioLonger =
     [exampleModule ''A''
        [exampleTask ''P'' (Some ''2024-01-01'') (Some ''2024-03-01T12:00:00Z'')]]"

section \<open>Properties of dates and of \<^verbatim>\<open>addTime\<close>\<close>

subsection \<open>Integer division\<close>

lemma div_bounds:
  fixes x n :: int
  assumes "0 < n"
  shows "n * (x div n) \<le> x" and "x < n * (x div n) + n"
  using mult_div_mod_eq [of n x] pos_mod_sign [OF assms, of x] pos_mod_bound [OF assms, of x]
  by linarith+

lemma div_succ:
  fixes x n :: int
  assumes n: "0 < n"
  shows "(x + 1) div n = x div n + (if (x + 1) mod n = 0 then 1 else 0)"
proof (cases "x mod n + 1 = n")
  case True
  have "n * (x div n + 1) = n * (x div n) + n"
    by (simp add: algebra_simps)
  then have "x + 1 = n * (x div n + 1) + 0"
    using mult_div_mod_eq [of n x] True by linarith
  then have "(x + 1) div n = x div n + 1" and "(x + 1) mod n = 0"
    using n by (metis int_div_pos_eq order_refl, metis int_mod_pos_eq order_refl)
  then show ?thesis by simp
next
  case False
  have r: "0 \<le> x mod n + 1" "x mod n + 1 < n"
    using pos_mod_sign [OF n, of x] pos_mod_bound [OF n, of x] False by linarith+
  have "x + 1 = n * (x div n) + (x mod n + 1)"
    using mult_div_mod_eq [of n x] by simp
  then have "(x + 1) div n = x div n" and "(x + 1) mod n = x mod n + 1"
    using r by (metis int_div_pos_eq, metis int_mod_pos_eq)
  then show ?thesis using pos_mod_sign [OF n, of x] by simp
qed

lemma mod_shift: "((y::int) - n * k) mod n = y mod n"
  using mod_mult_self2 [of y n "- k"] by simp

subsection \<open>Years and days\<close>

text \<open>Consecutive years start \<open>DaysInYear\<close> days apart, so \<open>DayFromYear\<close> is monotone;
  it stays within two days of the mean year length, which is why one correction step
  suffices in \<open>YearFromDay\<close>.\<close>

lemma DayFromYear_step: "DayFromYear (y + 1) = DayFromYear y + DaysInYear y"
proof -
  have a: "(y - 1968) div 4 = (y - 1969) div 4 + (if y mod 4 = 0 then 1 else 0)"
    using div_succ [of 4 "y - 1969"] mod_shift [of y 4 492] by simp
  have b: "(y - 1900) div 100 = (y - 1901) div 100 + (if y mod 100 = 0 then 1 else 0)"
    using div_succ [of 100 "y - 1901"] mod_shift [of y 100 19] by simp
  have c: "(y - 1600) div 400 = (y - 1601) div 400 + (if y mod 400 = 0 then 1 else 0)"
    using div_succ [of 400 "y - 1601"] mod_shift [of y 400 4] by simp
  have d: "y mod 400 = 0 \<Longrightarrow> y mod 100 = 0" "y mod 100 = 0 \<Longrightarrow> y mod 4 = 0"
    by (simp_all add: mod_eq_0_iff_dvd) (rule dvd_trans [of _ 400], simp, assumption,
        rule dvd_trans [of _ 100], simp, assumption)
  have e: "DayFromYear (y + 1) = 365 * (y - 1969) + (y - 1968) div 4 - (y - 1900) div 100
                   + (y - 1600) div 400"
    by (simp add: DayFromYear_def)
  show ?thesis
    unfolding e a b c using d by (auto simp: DayFromYear_def DaysInYear_def InLeapYear_def)
qed

lemma DayFromYear_approx:
  "146097 * (y - 1970) - 506 \<le> 400 * DayFromYear y"
  "400 * DayFromYear y \<le> 146097 * (y - 1970) + 589"
proof -
  define a b c where "a = (y - 1969) div 4" and "b = (y - 1901) div 100"
    and "c = (y - 1601) div 400"
  have p: "0 < (4::int)" "0 < (100::int)" "0 < (400::int)" by simp_all
  have f: "4 * a \<le> y - 1969" "y - 1969 < 4 * a + 4" "100 * b \<le> y - 1901"
    "y - 1901 < 100 * b + 100" "400 * c \<le> y - 1601" "y - 1601 < 400 * c + 400"
    unfolding a_def b_def c_def
    using div_bounds [OF p(1), of "y - 1969"] div_bounds [OF p(2), of "y - 1901"]
      div_bounds [OF p(3), of "y - 1601"] by blast+
  have e: "DayFromYear y = 365 * (y - 1970) + a - b + c"
    by (simp add: DayFromYear_def a_def b_def c_def)
  show "146097 * (y - 1970) - 506 \<le> 400 * DayFromYear y"
    unfolding e using f by (simp add: algebra_simps)
  show "400 * DayFromYear y \<le> 146097 * (y - 1970) + 589"
    unfolding e using f by (simp add: algebra_simps)
qed

lemma DayFromYear_mono: "y \<le> z \<Longrightarrow> DayFromYear y \<le> DayFromYear z"
proof (induction "nat (z - y)" arbitrary: z)
  case 0
  then show ?case by simp
next
  case (Suc k)
  then have "k = nat ((z - 1) - y)" "y \<le> z - 1" by linarith+
  then have "DayFromYear y \<le> DayFromYear (z - 1)" using Suc.hyps(1) by blast
  moreover have "DayFromYear z = DayFromYear (z - 1) + DaysInYear (z - 1)"
    using DayFromYear_step [of "z - 1"] by simp
  moreover have "0 \<le> DaysInYear (z - 1)" by (simp add: DaysInYear_def InLeapYear_def)
  ultimately show ?case by linarith
qed

text \<open>\<open>YearFromDay\<close> is \<^verbatim>\<open>YearFromTime\<close> as ECMAScript specifies it.\<close>

lemma YearFromDay_spec:
  "DayFromYear (YearFromDay d) \<le> d" "d < DayFromYear (YearFromDay d + 1)"
proof -
  define y0 where "y0 = 1970 + (400 * d) div 146097"
  have b: "146097 * (y0 - 1970) \<le> 400 * d" "400 * d < 146097 * (y0 - 1970) + 146097"
    using div_bounds [of 146097 "400 * d"] by (simp_all add: y0_def)
  have s: "146097 * (y0 - 1 - 1970) = 146097 * (y0 - 1970) - 146097"
    "146097 * (y0 + 2 - 1970) = 146097 * (y0 - 1970) + 292194" by simp_all
  have lo: "DayFromYear (y0 - 1) \<le> d"
    using DayFromYear_approx(2) [of "y0 - 1"] b unfolding s by linarith
  have hi: "d < DayFromYear (y0 + 2)"
    using DayFromYear_approx(1) [of "y0 + 2"] b unfolding s by linarith
  have unf: "YearFromDay d = (if DayFromYear (y0 + 1) \<le> d then y0 + 1
         else if DayFromYear y0 \<le> d then y0 else y0 - 1)"
    by (simp add: YearFromDay_def y0_def Let_def)
  show "DayFromYear (YearFromDay d) \<le> d" using lo by (simp add: unf)
  show "d < DayFromYear (YearFromDay d + 1)"
  proof (cases "DayFromYear (y0 + 1) \<le> d")
    case True
    then have "YearFromDay d + 1 = y0 + 2" by (simp add: unf)
    then show ?thesis using hi by (simp only:)
  next
    case False
    then show ?thesis by (simp add: unf)
  qed
qed

text \<open>It is the only such year.\<close>

lemma YearFromDay_unique:
  assumes "DayFromYear y \<le> d" "d < DayFromYear (y + 1)"
  shows "YearFromDay d = y"
proof (rule ccontr)
  assume ne: "YearFromDay d \<noteq> y"
  show False
  proof (cases "YearFromDay d < y")
    case True
    then have "DayFromYear (YearFromDay d + 1) \<le> DayFromYear y"
      by (intro DayFromYear_mono) simp
    then show False using YearFromDay_spec(2) [of d] assms(1) by linarith
  next
    case False
    then have "DayFromYear (y + 1) \<le> DayFromYear (YearFromDay d)"
      using ne by (intro DayFromYear_mono) simp
    then show False using YearFromDay_spec(1) [of d] assms(2) by linarith
  qed
qed

subsection \<open>Months and days of the month\<close>

lemma InLeapYear_cases: "InLeapYear y = 0 \<or> InLeapYear y = 1"
  by (simp add: InLeapYear_def)

lemma DayWithinYear_range:
  "0 \<le> DayWithinYear d" "DayWithinYear d < 365 + InLeapYear (YearFromDay d)"
  using YearFromDay_spec [of d] DayFromYear_step [of "YearFromDay d"]
  by (simp_all add: DayWithinYear_def DaysInYear_def)

lemma MonthFromDay_le: "MonthFromDay d \<le> 11"
  by (simp add: MonthFromDay_def Let_def)

lemma MonthFromDay_range:
  "MonthStart (InLeapYear (YearFromDay d)) (MonthFromDay d) \<le> DayWithinYear d"
  "DayWithinYear d < MonthStart (InLeapYear (YearFromDay d)) (Suc (MonthFromDay d))"
  using DayWithinYear_range [of d] InLeapYear_cases [of "YearFromDay d"]
  by (auto simp: MonthFromDay_def MonthStart_def Let_def)

lemma DateFromDay_range:
  "1 \<le> DateFromDay d" "DateFromDay d \<le> DaysInMonth (YearFromDay d) (MonthFromDay d)"
  using MonthFromDay_range [of d] by (simp_all add: DateFromDay_def DaysInMonth_def)

text \<open>The calendar date of a day number is the date whose day number it is.\<close>

lemma MakeDay_inverse: "MakeDay (YearFromDay d) (MonthFromDay d) (DateFromDay d) = d"
  by (simp add: MakeDay_def DateFromDay_def DayWithinYear_def)

lemma DaysInMonth_le: "DaysInMonth y m \<le> 31"
  using InLeapYear_cases [of y] by (auto simp: DaysInMonth_def MonthStart_def)

subsection \<open>Digits\<close>

lemma below_ten:
  fixes k :: nat
  assumes "k < 10"
  shows "k = 0 \<or> k = 1 \<or> k = 2 \<or> k = 3 \<or> k = 4 \<or> k = 5 \<or> k = 6 \<or> k = 7 \<or> k = 8 \<or> k = 9"
  using assms by presburger

lemma digit_cases:
  "digit n = CHR ''0'' \<or> digit n = CHR ''1'' \<or> digit n = CHR ''2'' \<or> digit n = CHR ''3'' \<or>
   digit n = CHR ''4'' \<or> digit n = CHR ''5'' \<or> digit n = CHR ''6'' \<or> digit n = CHR ''7'' \<or>
   digit n = CHR ''8'' \<or> digit n = CHR ''9''"
proof -
  have "n mod 10 < 10" by simp
  then have "n mod 10 = 0 \<or> n mod 10 = 1 \<or> n mod 10 = 2 \<or> n mod 10 = 3 \<or> n mod 10 = 4 \<or>
    n mod 10 = 5 \<or> n mod 10 = 6 \<or> n mod 10 = 7 \<or> n mod 10 = 8 \<or> n mod 10 = 9"
    by (rule below_ten)
  then show ?thesis unfolding digit_def by (elim disjE) simp_all
qed

lemma digitVal_digit: "digitVal (digit n) = Some (n mod 10)"
proof -
  have "n mod 10 < 10" by simp
  then have "n mod 10 = 0 \<or> n mod 10 = 1 \<or> n mod 10 = 2 \<or> n mod 10 = 3 \<or> n mod 10 = 4 \<or>
    n mod 10 = 5 \<or> n mod 10 = 6 \<or> n mod 10 = 7 \<or> n mod 10 = 8 \<or> n mod 10 = 9"
    by (rule below_ten)
  then show ?thesis unfolding digit_def digitVal_def by (elim disjE) simp_all
qed

lemma digit_not_T: "digit n \<noteq> CHR ''T''"
  using digit_cases [of n] by auto

lemma length_pad [simp]: "length (pad n k) = n"
  by (induction n arbitrary: k) simp_all

lemma pad_not_T: "CHR ''T'' \<notin> set (pad n k)"
  by (induction n arbitrary: k) (simp_all add: digit_not_T [symmetric])

lemma digitsVal_append:
  "digitsVal acc (xs @ ys) =
     (case digitsVal acc xs of None \<Rightarrow> None | Some a \<Rightarrow> digitsVal a ys)"
  by (induction xs arbitrary: acc) (simp_all split: option.splits)

lemma digitsVal_pad: "digitsVal acc (pad n k) = Some (acc * 10 ^ n + k mod 10 ^ n)"
proof (induction n arbitrary: k)
  case 0
  then show ?case by simp
next
  case (Suc n)
  have "k mod (10 * 10 ^ n) = 10 * (k div 10 mod 10 ^ n) + k mod 10"
    by (rule mod_mult2_eq)
  then show ?case
    by (simp add: digitsVal_append Suc.IH digitVal_digit algebra_simps)
qed

lemma digitsVal_pad_small: "k < 10 ^ n \<Longrightarrow> digitsVal 0 (pad n k) = Some k"
  by (simp add: digitsVal_pad)

lemma digitVal_less: "digitVal c = Some v \<Longrightarrow> v < 10"
  by (auto simp: digitVal_def split: if_splits)

lemma digitsVal_bound: "digitsVal acc cs = Some v \<Longrightarrow> v < (acc + 1) * 10 ^ length cs"
proof (induction cs arbitrary: acc)
  case Nil
  then show ?case by simp
next
  case (Cons c cs)
  from Cons.prems obtain d where d: "digitVal c = Some d" "digitsVal (10 * acc + d) cs = Some v"
    by (auto split: option.splits)
  have "v < (10 * acc + d + 1) * 10 ^ length cs" using Cons.IH [OF d(2)] .
  also have "\<dots> \<le> (10 * acc + 10) * 10 ^ length cs"
    using digitVal_less [OF d(1)] by (intro mult_right_mono) simp_all
  finally show ?case by (simp add: algebra_simps)
qed

lemma digitsVal_all:
  assumes "digitsVal acc cs = Some v" "c \<in> set cs"
  shows "digitVal c \<noteq> None"
  using assms by (induction cs arbitrary: acc) (auto split: option.splits)

subsection \<open>Reading a printed date\<close>

lemma digit_not_sign: "\<not> isSign (digit n)"
  using digit_cases [of n] by (auto simp: isSign_def)

lemma hd_pad_not_sign: "\<not> isSign (hd (pad (Suc j) n @ r))"
proof (induction j arbitrary: n r)
  case 0
  then show ?case by (simp add: digit_not_sign)
next
  case (Suc j)
  have e: "pad (Suc (Suc j)) n @ r = pad (Suc j) (n div 10) @ (digit n # r)" by simp
  show ?case unfolding e by (rule Suc.IH)
qed

lemma parseDate_plain:
  assumes "length a = 4" "\<not> isSign (hd (a @ r))"
  shows "parseDate (a @ r) =
     (case digitsVal 0 a of Some y \<Rightarrow> monthDay (int y) r | None \<Rightarrow> None)"
  using assms by (auto simp: parseDate_def split: option.splits)

lemma parseDate_signed:
  assumes "length a = 6" "isSign sg"
  shows "parseDate (sg # a @ r) =
     (case digitsVal 0 a of
        Some y \<Rightarrow> if sg = CHR ''-'' then (if y = 0 then None else monthDay (- int y) r)
                  else monthDay (int y) r
      | None \<Rightarrow> None)"
  using assms by (auto simp: parseDate_def split: option.splits)

lemma monthDay_full:
  assumes "length b = 2" "length c = 2"
  shows "monthDay yr (CHR ''-'' # b @ CHR ''-'' # c) =
     (case (digitsVal 0 b, digitsVal 0 c) of
        (Some m, Some d) \<Rightarrow>
          if 1 \<le> m \<and> m \<le> 12 \<and> 1 \<le> d \<and> d \<le> 31
          then Some (MakeDay yr (m - 1) (int d)) else None
      | _ \<Rightarrow> None)"
  using assms by (simp add: monthDay_def nth_append)

lemma monthDay_pad:
  assumes "1 \<le> b" "b \<le> 12" "1 \<le> c" "c \<le> 31"
  shows "monthDay yr (CHR ''-'' # pad 2 b @ CHR ''-'' # pad 2 c) = Some (MakeDay yr (b - 1) (int c))"
proof -
  have "digitsVal 0 (pad 2 b) = Some b" using assms(2) by (intro digitsVal_pad_small) simp
  moreover have "digitsVal 0 (pad 2 c) = Some c" using assms(4) by (intro digitsVal_pad_small) simp
  moreover have "length (pad 2 b) = 2" "length (pad 2 c) = 2" by (rule length_pad)+
  ultimately show ?thesis using assms by (simp only: monthDay_full) simp
qed

lemma parseDate_print_plain:
  assumes "n < 10000" "1 \<le> b" "b \<le> 12" "1 \<le> c" "c \<le> 31"
  shows "parseDate (pad 4 n @ CHR ''-'' # pad 2 b @ CHR ''-'' # pad 2 c) =
     Some (MakeDay (int n) (b - 1) (int c))"
proof -
  let ?r = "CHR ''-'' # pad 2 b @ CHR ''-'' # pad 2 c"
  have four: "Suc 3 = 4" by simp
  have ns: "\<not> isSign (hd (pad 4 n @ ?r))"
    using hd_pad_not_sign [of 3 n ?r] unfolding four .
  have dv: "digitsVal 0 (pad 4 n) = Some n"
    using assms(1) by (intro digitsVal_pad_small) simp
  have "parseDate (pad 4 n @ ?r) = monthDay (int n) ?r"
    unfolding parseDate_plain [OF length_pad ns] dv by simp
  then show ?thesis by (simp only: monthDay_pad [OF assms(2-)])
qed

lemma parseDate_print_signed:
  assumes "n < 1000000" "isSign sg" "sg = CHR ''-'' \<longrightarrow> n \<noteq> 0"
    and "1 \<le> b" "b \<le> 12" "1 \<le> c" "c \<le> 31"
  shows "parseDate (sg # pad 6 n @ CHR ''-'' # pad 2 b @ CHR ''-'' # pad 2 c) =
     Some (MakeDay (if sg = CHR ''-'' then - int n else int n) (b - 1) (int c))"
proof -
  let ?r = "CHR ''-'' # pad 2 b @ CHR ''-'' # pad 2 c"
  have dv: "digitsVal 0 (pad 6 n) = Some n"
    using assms(1) by (intro digitsVal_pad_small) simp
  have "parseDate (sg # pad 6 n @ ?r) =
      monthDay (if sg = CHR ''-'' then - int n else int n) ?r"
    unfolding parseDate_signed [OF length_pad assms(2)] dv using assms(3) by auto
  then show ?thesis by (simp only: monthDay_pad [OF assms(4-)])
qed

lemma YearFromDay_bounds:
  assumes "\<bar>k * msPerDay\<bar> \<le> maxTime"
  shows "- 271821 \<le> YearFromDay k" "YearFromDay k \<le> 275760"
proof -
  have k: "- 100000000 \<le> k" "k \<le> 100000000"
    using assms by (simp_all add: msPerDay_def maxTime_def abs_le_iff)
  define y where "y = YearFromDay k"
  have 1: "DayFromYear y \<le> k" "k < DayFromYear (y + 1)"
    using YearFromDay_spec [of k] by (simp_all add: y_def)
  have "146097 * (y - 1970) - 506 \<le> 400 * k"
    using DayFromYear_approx(1) [of y] 1(1) by linarith
  then have "146097 * y \<le> 40000000000 + 506 + 146097 * 1970"
    using k(2) by (simp add: algebra_simps)
  then show "YearFromDay k \<le> 275760" unfolding y_def [symmetric] by linarith
  have "400 * k < 146097 * (y + 1 - 1970) + 589"
    using DayFromYear_approx(2) [of "y + 1"] 1(2) by linarith
  then have "- 40000000000 < 146097 * y - 146097 * 1969 + 589"
    using k(1) by (simp add: algebra_simps)
  then show "- 271821 \<le> YearFromDay k" unfolding y_def [symmetric] by linarith
qed

text \<open>The date part reads the date that \<^verbatim>\<open>toISOString\<close> prints, over the whole range
  of \<^verbatim>\<open>Date\<close>.\<close>

lemma parseDate_isoDate:
  assumes "\<bar>k * msPerDay\<bar> \<le> maxTime"
  shows "parseDate (isoDate k) = Some k"
proof -
  define y m dt where "y = YearFromDay k" and "m = MonthFromDay k" and "dt = DateFromDay k"
  have yb: "- 271821 \<le> y" "y \<le> 275760"
    using YearFromDay_bounds [OF assms] by (simp_all add: y_def)
  have m: "1 \<le> Suc m" "Suc m \<le> 12" by (simp_all add: m_def MonthFromDay_le)
  have dt: "1 \<le> dt" "dt \<le> DaysInMonth y m"
    using DateFromDay_range [of k] by (simp_all add: dt_def y_def m_def)
  have d: "1 \<le> nat dt" "nat dt \<le> 31" "int (nat dt) = dt"
    using dt DaysInMonth_le [of y m] by linarith+
  have mk: "MakeDay y m dt = k" by (simp add: y_def m_def dt_def MakeDay_inverse)
  let ?r = "CHR ''-'' # pad 2 (Suc m) @ CHR ''-'' # pad 2 (nat dt)"
  have iso: "isoDate k = isoYear y @ ?r"
    by (simp add: isoDate_def y_def m_def dt_def)
  show ?thesis
  proof (cases "0 \<le> y \<and> y \<le> 9999")
    case True
    then have yr: "isoYear y = pad 4 (nat y)" by (simp add: isoYear_def)
    have n: "nat y < 10000" "int (nat y) = y" using True by linarith+
    have "parseDate (pad 4 (nat y) @ ?r) = Some (MakeDay (int (nat y)) (Suc m - 1) (int (nat dt)))"
      using n(1) m d(1,2) by (rule parseDate_print_plain)
    then show ?thesis unfolding iso yr n(2) d(3) using mk by simp
  next
    case False
    define sg where "sg = (if y < 0 then CHR ''-'' else CHR ''+'')"
    have yr: "isoYear y = sg # pad 6 (nat \<bar>y\<bar>)"
      using False by (simp add: isoYear_def sg_def)
    have sg: "isSign sg" "sg = CHR ''-'' \<longrightarrow> nat \<bar>y\<bar> \<noteq> 0"
      by (simp_all add: sg_def isSign_def)
    have n: "nat \<bar>y\<bar> < 1000000" using yb by linarith
    have y: "(if sg = CHR ''-'' then - int (nat \<bar>y\<bar>) else int (nat \<bar>y\<bar>)) = y"
      by (simp add: sg_def)
    have "parseDate (sg # pad 6 (nat \<bar>y\<bar>) @ ?r) =
       Some (MakeDay (if sg = CHR ''-'' then - int (nat \<bar>y\<bar>) else int (nat \<bar>y\<bar>))
               (Suc m - 1) (int (nat dt)))"
      using n sg m d(1,2) by (rule parseDate_print_signed)
    then show ?thesis unfolding iso yr y d(3) using mk by simp
  qed
qed

lemma isoDate_no_T: "CHR ''T'' \<notin> set (isoDate k)"
  by (simp add: isoDate_def isoYear_def pad_not_T del: pad.simps)

text \<open>A string with no \<^verbatim>\<open>T\<close> is a date with no time, and gives a whole day.\<close>

lemma Date_of_string_no_T:
  assumes "CHR ''T'' \<notin> set s"
  shows "Date_of_string s =
     (case parseDate s of None \<Rightarrow> None | Some day \<Rightarrow> TimeClip (Some (day * msPerDay)))"
proof -
  have tw: "takeWhile (\<lambda>c. c \<noteq> CHR ''T'') s = s"
    using assms by (intro takeWhile_eq_all_conv [THEN iffD2]) auto
  have dw: "dropWhile (\<lambda>c. c \<noteq> CHR ''T'') s = []"
    using assms by (intro dropWhile_eq_Nil_conv [THEN iffD2]) auto
  show ?thesis unfolding Date_of_string_def Let_def tw dw
    by (cases "parseDate s") simp_all
qed

lemma Date_of_string_day:
  assumes "CHR ''T'' \<notin> set s" "Date_of_string s = Some t"
  shows "t mod msPerDay = 0"
  using assms(2) unfolding Date_of_string_no_T [OF assms(1)] TimeClip_def
  by (auto split: option.splits if_splits)

text \<open>\<^verbatim>\<open>new Date\<close> reads the date that \<^verbatim>\<open>toISOString\<close> prints.\<close>

lemma Date_of_string_isoDate:
  assumes "\<bar>k * msPerDay\<bar> \<le> maxTime"
  shows "Date_of_string (isoDate k) = Some (k * msPerDay)"
  using assms
  by (simp add: Date_of_string_no_T [OF isoDate_no_T] parseDate_isoDate TimeClip_def)

lemma Date_of_string_Nil: "Date_of_string [] = None"
  by (simp add: Date_of_string_def parseDate_def)

subsection \<open>\<^verbatim>\<open>addTime\<close> on a date\<close>

lemma split_T_0_iso: "split_T_0 (isoDate k @ CHR ''T'' # rest) = isoDate k"
proof -
  have "takeWhile (\<lambda>c. c \<noteq> CHR ''T'') (isoDate k @ CHR ''T'' # rest) =
        isoDate k @ takeWhile (\<lambda>c. c \<noteq> CHR ''T'') (CHR ''T'' # rest)"
    by (rule takeWhile_append2) (use isoDate_no_T [of k] in auto)
  then show ?thesis by (simp add: split_T_0_def)
qed

text \<open>\<^verbatim>\<open>addTime\<close> on a date that \<^verbatim>\<open>new Date\<close> reads: it throws when the shifted time
  leaves the range, and returns the date of the shifted time otherwise.\<close>

lemma addTime_valid:
  assumes "Date_of_string s = Some t"
  shows "addTime s (Some d) =
     (if \<bar>t + d\<bar> > maxTime then Inl RangeError else Inr (isoDate (Day (t + d))))"
proof -
  have "s \<noteq> []" using assms Date_of_string_Nil by auto
  then show ?thesis
    using assms
    by (simp add: addTime_def getTime_def num_add_def TimeClip_def toISOString_def
        split_T_0_iso Let_def)
qed

lemma addTime_parse:
  assumes "addTime s (Some d) = Inr s'" "Date_of_string s = Some t"
  shows "Date_of_string s' = Some (Day (t + d) * msPerDay)"
proof -
  have r: "\<bar>t + d\<bar> \<le> maxTime" "s' = isoDate (Day (t + d))"
    using assms(1) unfolding addTime_valid [OF assms(2)] by (auto split: if_splits)
  define q where "q = Day (t + d)"
  have "0 < (86400000 :: int)" by simp
  then have b: "86400000 * q \<le> t + d" "t + d < 86400000 * q + 86400000"
    unfolding q_def Day_def msPerDay_def by (rule div_bounds)+
  have "86400000 * (- 100000001) < 86400000 * q"
    using r(1) b unfolding maxTime_def by linarith
  then have "- 100000001 < q" by (simp only: mult_less_cancel_left_pos [OF \<open>0 < 86400000\<close>])
  then have "\<bar>q * 86400000\<bar> \<le> 8640000000000000"
    using r(1) b unfolding maxTime_def by linarith
  then have "\<bar>Day (t + d) * msPerDay\<bar> \<le> maxTime"
    by (simp add: q_def msPerDay_def maxTime_def)
  then show ?thesis unfolding r(2) by (rule Date_of_string_isoDate)
qed

text \<open>
  \<^verbatim>\<open>addTime\<close> drops the time of day, so shifts do not add up in general: two shifts of
  twelve hours leave the date where one shift of a day moves it. And a first shift beyond
  the range of \<^verbatim>\<open>Date\<close> throws, where the sum of the two shifts may be in range.
\<close>

theorem addTime_compose_fails:
  "addTime ''2024-01-01'' (Some 43200000) = Inr ''2024-01-01'' \<and>
   addTime ''2024-01-01'' (Some (43200000 + 43200000)) = Inr ''2024-01-02'' \<and>
   addTime ''2024-01-01'' (Some 9000000000000000) = Inl RangeError \<and>
   addTime ''2024-01-01'' (Some (9000000000000000 + (- 9000000000000000))) =
     Inr ''2024-01-01''"
  by code_simp

text \<open>
  Claim C9, as amended. For a date \<open>D\<close> that \<^verbatim>\<open>new Date\<close> reads as a whole day (every
  date written with no time is read so, lemma \<open>Date_of_string_day\<close>; a valid calendar
  date in the form \<^verbatim>\<open>YYYY-MM-DD\<close> is one), a first shift \<open>d1\<close> of a whole number of days
  that stays in the range of \<^verbatim>\<open>Date\<close>, and every second shift \<open>d2\<close>: \<^verbatim>\<open>addTime\<close>
  returns a date for the first shift, and shifting that date by \<open>d2\<close> is shifting \<open>D\<close> by
  \<open>d1 + d2\<close>. (The claim as stated, for all \<open>d1\<close>, fails as shown above.)
\<close>

theorem addTime_compose:
  assumes "Date_of_string D = Some t" "t mod msPerDay = 0"
    and "d1 mod msPerDay = 0" "\<bar>t + d1\<bar> \<le> maxTime"
  shows "\<exists>D'. addTime D (Some d1) = Inr D' \<and>
               addTime D' (Some d2) = addTime D (Some (d1 + d2))"
proof -
  let ?D' = "isoDate (Day (t + d1))"
  have 1: "addTime D (Some d1) = Inr ?D'"
    using assms(4) by (simp add: addTime_valid [OF assms(1)])
  have "(t + d1) mod msPerDay = 0" using assms(2,3) by (simp add: mod_eq_0_iff_dvd)
  then have "Day (t + d1) * msPerDay = t + d1"
    unfolding Day_def by (simp add: mod_eq_0_iff_dvd)
  then have 2: "Date_of_string ?D' = Some (t + d1)"
    using addTime_parse [OF 1 assms(1)] by simp
  have "addTime ?D' (Some d2) = addTime D (Some (d1 + d2))"
    unfolding addTime_valid [OF 2] addTime_valid [OF assms(1)] by (simp add: add.assoc)
  then show ?thesis using 1 by blast
qed

theorem addTime_compose_witness:
  "\<exists>D'. addTime ''2024-01-30'' (Some (3 * 86400000)) = Inr D' \<and>
         addTime D' (Some (- 43200000)) =
         addTime ''2024-01-30'' (Some (3 * 86400000 + (- 43200000)))"
proof (rule addTime_compose)
  show "Date_of_string ''2024-01-30'' = Some 1706572800000" by code_simp
  show "1706572800000 mod msPerDay = 0" by (simp add: msPerDay_def)
  show "3 * 86400000 mod msPerDay = 0" by (simp add: msPerDay_def)
  show "\<bar>1706572800000 + 3 * 86400000\<bar> \<le> maxTime" by (simp add: maxTime_def)
qed

subsection \<open>The range of well-formed dates\<close>

lemma DayFromYear_range:
  assumes "0 \<le> y" "y \<le> 9999"
  shows "- 719528 \<le> DayFromYear y" "DayFromYear y \<le> 2932532"
proof -
  have "DayFromYear 0 = - 719528" "DayFromYear 9999 = 2932532"
    by (simp_all add: DayFromYear_def)
  then show "- 719528 \<le> DayFromYear y" "DayFromYear y \<le> 2932532"
    using DayFromYear_mono [OF assms(1)] DayFromYear_mono [OF assms(2)] by simp_all
qed

lemma MonthStart_range:
  "0 \<le> MonthStart (InLeapYear y) m" "m \<le> 11 \<Longrightarrow> MonthStart (InLeapYear y) m \<le> 335"
proof -
  show "0 \<le> MonthStart (InLeapYear y) m"
    using InLeapYear_cases [of y] by (auto simp: MonthStart_def)
  assume "m \<le> 11"
  then have "m = 0 \<or> m = 1 \<or> m = 2 \<or> m = 3 \<or> m = 4 \<or> m = 5 \<or> m = 6 \<or> m = 7 \<or> m = 8 \<or>
    m = 9 \<or> m = 10 \<or> m = 11"
    by presburger
  then show "MonthStart (InLeapYear y) m \<le> 335"
    using InLeapYear_cases [of y] by (elim disjE) (auto simp: MonthStart_def)
qed

lemma MakeDay_bound:
  assumes "m \<le> 11" "1 \<le> d" "d \<le> 31"
  shows "DayFromYear yr \<le> MakeDay yr m d" "MakeDay yr m d \<le> DayFromYear yr + 365"
  using MonthStart_range(1) [of yr m] MonthStart_range(2) [OF assms(1), of yr] assms(2,3)
  by (simp_all add: MakeDay_def)

lemma monthDay_bound:
  assumes "monthDay yr r = Some day"
  shows "DayFromYear yr \<le> day \<and> day \<le> DayFromYear yr + 365"
proof -
  have "\<exists>m d. m \<le> 11 \<and> 1 \<le> d \<and> d \<le> 31 \<and> day = MakeDay yr m d"
  proof (cases "r = []")
    case True
    then have "day = MakeDay yr 0 1" using assms by (simp add: monthDay_def)
    then show ?thesis by (intro exI [of _ 0] exI [of _ 1]) simp
  next
    case False
    note r = this
    show ?thesis
    proof (cases "length r = 3")
      case True
      then obtain m where "1 \<le> m" "m \<le> 12" "day = MakeDay yr (m - 1) 1"
        using assms r by (auto simp: monthDay_def split: if_splits option.splits)
      then show ?thesis by (intro exI [of _ "m - 1"] exI [of _ 1]) simp
    next
      case False
      then obtain m d where "1 \<le> m" "m \<le> 12" "1 \<le> d" "d \<le> 31"
        "day = MakeDay yr (m - 1) (int d)"
        using assms r by (auto simp: monthDay_def split: if_splits option.splits)
      then show ?thesis by (intro exI [of _ "m - 1"] exI [of _ "int d"]) simp
    qed
  qed
  then show ?thesis using MakeDay_bound by blast
qed

lemma parseDate_plain_bound:
  assumes "parseDate d = Some day" "\<not> isSign (hd d)"
  shows "- 719528 \<le> day \<and> day \<le> 2932897"
proof -
  from assms obtain y where y: "4 \<le> length d" "digitsVal 0 (take 4 d) = Some y"
    "monthDay (int y) (drop 4 d) = Some day"
    by (auto simp: parseDate_def split: if_splits option.splits)
  have "y < (0 + 1) * 10 ^ length (take 4 d)" using y(2) by (rule digitsVal_bound)
  then have "0 \<le> int y" "int y \<le> 9999" using y(1) by simp_all
  then show ?thesis
    using DayFromYear_range [of "int y"] monthDay_bound [OF y(3)] by linarith
qed

lemma hms_bound:
  assumes "hms hs ms ss fs = Some t" "length fs = 3"
  shows "0 \<le> t \<and> t \<le> 86400000"
proof -
  from assms(1) obtain h m sec f where p: "digitsVal 0 fs = Some f"
    "(h \<le> 23 \<and> m \<le> 59 \<and> sec \<le> 59) \<or> (h = 24 \<and> m = 0 \<and> sec = 0 \<and> f = 0)"
    "t = int h * 3600000 + int m * 60000 + int sec * 1000 + int f"
    unfolding hms_def by (auto split: if_splits option.splits)
  have "f < (0 + 1) * 10 ^ length fs" using p(1) by (rule digitsVal_bound)
  then have "f < 1000" using assms(2) by simp
  then show ?thesis using p(2,3) by auto
qed

lemma clock_bound:
  assumes "clock s = Some t"
  shows "0 \<le> t \<and> t \<le> 86400000"
proof -
  have "\<exists>hs ms ss fs. hms hs ms ss fs = Some t \<and> length fs = 3"
  proof (cases "length s = 5")
    case True
    then have "hms (take 2 s) (drop 3 s) ''00'' ''000'' = Some t"
      using assms by (simp add: clock_def split: if_splits)
    then show ?thesis by (metis length_Cons list.size(3) numeral_3_eq_3)
  next
    case False
    note five = this
    show ?thesis
    proof (cases "length s = 8")
      case True
      then have "hms (take 2 s) (take 2 (drop 3 s)) (drop 6 s) ''000'' = Some t"
        using assms by (simp add: clock_def split: if_splits)
      then show ?thesis by (metis length_Cons list.size(3) numeral_3_eq_3)
    next
      case False
      then have "hms (take 2 s) (take 2 (drop 3 s)) (take 2 (drop 6 s)) (drop 9 s) = Some t"
        "length s = 12"
        using assms five by (simp_all add: clock_def split: if_splits)
      moreover from this have "length (drop 9 s) = 3" by simp
      ultimately show ?thesis by blast
    qed
  qed
  then show ?thesis using hms_bound by blast
qed

lemma offset_bound:
  assumes "offset s = Some z"
  shows "\<bar>z\<bar> < 86400000"
  using assms unfolding offset_def LocalTZA_def
  by (auto split: if_splits option.splits)

lemma parseTime_bound:
  assumes "parseTime s = Some ms"
  shows "- 86400000 < ms \<and> ms < 2 * 86400000"
proof -
  from assms obtain t z where "clock (takeWhile inClock s) = Some t"
    "offset (dropWhile inClock s) = Some z" "ms = t - z"
    by (auto simp: parseTime_def split: option.splits)
  then show ?thesis using clock_bound [of _ t] offset_bound [of _ z] by fastforce
qed

lemma hd_takeWhile: "takeWhile P s \<noteq> [] \<Longrightarrow> hd (takeWhile P s) = hd s"
  by (cases s) (auto split: if_splits)

lemma parseDate_Nil: "parseDate [] = None"
  by (simp add: parseDate_def)

text \<open>A string that \<^verbatim>\<open>new Date\<close> reads and that does not start with a sign has a year
  of four digits; its time is less than three million days from the epoch.\<close>

lemma Date_of_string_plain_bound:
  assumes "Date_of_string s = Some t" "\<not> isSign (hd s)"
  shows "\<bar>t\<bar> \<le> 259200000000000"
proof -
  let ?d = "takeWhile (\<lambda>c. c \<noteq> CHR ''T'') s"
  let ?r = "dropWhile (\<lambda>c. c \<noteq> CHR ''T'') s"
  from assms(1) obtain day where day: "parseDate ?d = Some day"
    by (auto simp: Date_of_string_def Let_def split: option.splits)
  then have "?d \<noteq> []" using parseDate_Nil by auto
  then have "\<not> isSign (hd ?d)" using assms(2) by (simp add: hd_takeWhile)
  then have b: "- 719528 \<le> day" "day \<le> 2932897"
    using parseDate_plain_bound [OF day] by simp_all
  have "t = day * 86400000 \<or> (\<exists>ms. - 86400000 < ms \<and> ms < 2 * 86400000 \<and> t = day * 86400000 + ms)"
  proof (cases "?r = []")
    case True
    then show ?thesis
      using assms(1) day
      by (auto simp: Date_of_string_def Let_def TimeClip_def msPerDay_def split: if_splits)
  next
    case False
    then obtain ms where "parseTime (tl ?r) = Some ms" "t = day * 86400000 + ms"
      using assms(1) day
      by (auto simp: Date_of_string_def Let_def TimeClip_def msPerDay_def
          split: if_splits option.splits)
    then show ?thesis using parseTime_bound by blast
  qed
  then show ?thesis using b by auto
qed

lemma wellFormedDate_not_sign:
  assumes "wellFormedDate s"
  shows "\<not> isSign (hd s)"
proof
  assume sg: "isSign (hd s)"
  let ?d = "takeWhile (\<lambda>c. c \<noteq> CHR ''T'') s"
  from assms obtain day where day: "parseDate ?d = Some day" and s4: "s ! 4 = CHR ''-''"
    by (auto simp: wellFormedDate_def Date_of_string_def Let_def split: option.splits)
  then have ne: "?d \<noteq> []" using parseDate_Nil by auto
  then have "isSign (hd ?d)" using sg by (simp add: hd_takeWhile)
  then obtain y where y: "7 \<le> length ?d" "digitsVal 0 (take 6 (drop 1 ?d)) = Some y"
    using day ne by (auto simp: parseDate_def split: if_splits option.splits)
  have "?d ! 4 = s ! 4" using y(1) by (intro takeWhile_nth) simp
  then have "take 6 (drop 1 ?d) ! 3 = CHR ''-''" using y(1) s4 by simp
  moreover have "3 < length (take 6 (drop 1 ?d))" using y(1) by simp
  ultimately have "CHR ''-'' \<in> set (take 6 (drop 1 ?d))" by (metis nth_mem)
  then have "digitVal CHR ''-'' \<noteq> None" using digitsVal_all [OF y(2)] by blast
  then show False by (simp add: digitVal_def)
qed

lemma wellFormedDate_bound:
  assumes "wellFormedDate s" "Date_of_string s = Some t"
  shows "\<bar>t\<bar> \<le> 259200000000000"
  using assms(2) wellFormedDate_not_sign [OF assms(1)] by (rule Date_of_string_plain_bound)

lemma addTime_total:
  assumes "wellFormedDate s" "\<bar>d\<bar> \<le> 2 * 259200000000000"
  shows "\<exists>s'. addTime s (Some d) = Inr s'"
proof -
  obtain t where t: "Date_of_string s = Some t"
    using assms(1) by (auto simp: wellFormedDate_def)
  have "\<bar>t + d\<bar> \<le> maxTime"
    using wellFormedDate_bound [OF assms(1) t] assms(2) by (simp add: maxTime_def)
  then show ?thesis by (simp add: addTime_valid [OF t])
qed

section \<open>Properties of \<^verbatim>\<open>recalculateTotalTime\<close>\<close>

subsection \<open>The scan computes a minimum and a maximum\<close>

lemma TimeClip_Some: "TimeClip x = Some v \<Longrightarrow> \<bar>v\<bar> \<le> maxTime"
  by (auto simp: TimeClip_def split: option.splits if_splits)

lemma Date_of_string_range: "Date_of_string s = Some v \<Longrightarrow> \<bar>v\<bar> \<le> maxTime"
  unfolding Date_of_string_def Let_def
  by (auto split: option.splits if_splits dest: TimeClip_Some)

lemma date_cmp_None [simp]: "date_lt None x = False" "date_gt None x = False"
  by (simp_all add: date_lt_def date_gt_def)

lemma scanTask_eq:
  "scanTask t s =
     s\<lparr>minDate := (if date_lt (startTime (dates t)) (minDate s) then startTime (dates t)
                    else minDate s),
       maxDate := (if date_gt (endTime (dates t)) (maxDate s) then endTime (dates t)
                    else maxDate s),
       hasDates := hasDates s \<or> truthy (startDate t)\<rparr>"
  by (cases "truthy (startDate t)"; cases "truthy (endDate t)")
     (simp_all add: scanTask_def startTime_def endTime_def dates_def Let_def)

lemma scanTask_Some:
  assumes "minDate s = Some m" "maxDate s = Some M"
  shows "scanTask t s =
     s\<lparr>minDate := Some (case startTime (dates t) of None \<Rightarrow> m | Some v \<Rightarrow> min v m),
       maxDate := Some (case endTime (dates t) of None \<Rightarrow> M | Some v \<Rightarrow> max v M),
       hasDates := hasDates s \<or> truthy (startDate t)\<rparr>"
  unfolding scanTask_eq using assms
  by (auto simp: date_lt_def date_gt_def min_def max_def split: option.splits)

lemma Min_insert_min:
  fixes a m :: int
  shows "finite S \<Longrightarrow> Min (insert (min a m) S) = min a (Min (insert m S))"
  by (cases "S = {}") (simp_all add: min.assoc)

lemma Max_insert_max:
  fixes a m :: int
  shows "finite S \<Longrightarrow> Max (insert (max a m) S) = max a (Max (insert m S))"
  by (cases "S = {}") (simp_all add: max.assoc)

lemma fold_scanTask:
  assumes "minDate s = Some m" "maxDate s = Some M"
  shows "fold scanTask ts s =
     s\<lparr>minDate := Some (Min (insert m (set (startTimes ts)))),
       maxDate := Some (Max (insert M (set (endTimes ts)))),
       hasDates := hasDates s \<or> (\<exists>t \<in> set ts. truthy (startDate t))\<rparr>"
  using assms
proof (induction ts arbitrary: s m M)
  case Nil
  then show ?case by (simp add: startTimes_def endTimes_def map_filter_simps)
next
  case (Cons t ts)
  let ?m = "case startTime (dates t) of None \<Rightarrow> m | Some v \<Rightarrow> min v m"
  let ?M = "case endTime (dates t) of None \<Rightarrow> M | Some v \<Rightarrow> max v M"
  have st: "scanTask t s = s\<lparr>minDate := Some ?m, maxDate := Some ?M,
       hasDates := hasDates s \<or> truthy (startDate t)\<rparr>"
    using scanTask_Some [OF Cons.prems] .
  have a: "Min (insert ?m (set (startTimes ts))) = Min (insert m (set (startTimes (t # ts))))"
    by (cases "startTime (dates t)")
       (simp_all add: startTimes_def map_filter_simps Min_insert_min insert_commute [of m])
  have b: "Max (insert ?M (set (endTimes ts))) = Max (insert M (set (endTimes (t # ts))))"
    by (cases "endTime (dates t)")
       (simp_all add: endTimes_def map_filter_simps Max_insert_max insert_commute [of M])
  have "fold scanTask (t # ts) s = fold scanTask ts (scanTask t s)" by simp
  also have "\<dots> = (scanTask t s)\<lparr>minDate := Some (Min (insert ?m (set (startTimes ts)))),
       maxDate := Some (Max (insert ?M (set (endTimes ts)))),
       hasDates := hasDates (scanTask t s) \<or> (\<exists>t \<in> set ts. truthy (startDate t))\<rparr>"
    by (rule Cons.IH) (simp_all add: st)
  also have "\<dots> = s\<lparr>minDate := Some (Min (insert m (set (startTimes (t # ts))))),
       maxDate := Some (Max (insert M (set (endTimes (t # ts))))),
       hasDates := hasDates s \<or> (\<exists>t \<in> set (t # ts). truthy (startDate t))\<rparr>"
    unfolding a b by (auto simp: st)
  finally show ?case .
qed

lemma scanModules_eq: "scanModules ms s = fold scanTask (allTasks ms) s"
  unfolding scanModules_def allTasks_def by (induction ms arbitrary: s) simp_all

lemma set_map_filter: "set (List.map_filter f xs) = {v. \<exists>x \<in> set xs. f x = Some v}"
  by (induction xs) (auto simp: map_filter_simps split: option.splits)

lemma scan_result:
  "scanModules ms \<lparr>minDate = TimeClip (Some 8640000000000000),
                   maxDate = TimeClip (Some (- 8640000000000000)), hasDates = False\<rparr> =
   \<lparr>minDate = Some (Min (insert maxTime (set (startTimes (allTasks ms))))),
    maxDate = Some (Max (insert (- maxTime) (set (endTimes (allTasks ms))))),
    hasDates = (\<exists>t \<in> set (allTasks ms). truthy (startDate t))\<rparr>"
proof -
  have c: "TimeClip (Some 8640000000000000) = Some maxTime"
    "TimeClip (Some (- 8640000000000000)) = Some (- maxTime)"
    by (simp_all add: TimeClip_def maxTime_def)
  show ?thesis
    unfolding scanModules_eq c
    by (subst fold_scanTask [where m = maxTime and M = "- maxTime"]) simp_all
qed

lemma set_startTimes:
  "set (startTimes ts) = {v. \<exists>p \<in> set (map dates ts). startTime p = Some v}"
  by (auto simp: startTimes_def set_map_filter)

lemma set_endTimes:
  "set (endTimes ts) = {v. \<exists>p \<in> set (map dates ts). endTime p = Some v}"
  by (auto simp: endTimes_def set_map_filter)

lemma any_start:
  "(\<exists>t \<in> set ts. truthy (startDate t)) = (\<exists>p \<in> set (map dates ts). truthy (fst p))"
  by (auto simp: dates_def)

lemma recalc_cong:
  assumes "set (map dates (allTasks ms1)) = set (map dates (allTasks ms2))"
  shows "recalculateTotalTime ms1 = recalculateTotalTime ms2"
proof -
  have "scanModules ms1 \<lparr>minDate = TimeClip (Some 8640000000000000),
                   maxDate = TimeClip (Some (- 8640000000000000)), hasDates = False\<rparr> =
        scanModules ms2 \<lparr>minDate = TimeClip (Some 8640000000000000),
                   maxDate = TimeClip (Some (- 8640000000000000)), hasDates = False\<rparr>"
    unfolding scan_result set_startTimes set_endTimes any_start assms ..
  then show ?thesis by (simp add: recalculateTotalTime_def)
qed

text \<open>
  Claim C8. \<^verbatim>\<open>recalculateTotalTime\<close> does not depend on the order of modules and tasks:
  two module lists whose tasks carry the same multiset of pairs of start and end date give
  the same summary. This holds for every string as a date, also one that \<^verbatim>\<open>new Date\<close>
  does not read: such a date never becomes the minimum or the maximum.
\<close>

theorem recalculateTotalTime_reorder:
  assumes "mset (map dates (allTasks ms1)) = mset (map dates (allTasks ms2))"
  shows "recalculateTotalTime ms1 = recalculateTotalTime ms2"
  using recalc_cong [OF mset_eq_setD [OF assms]] .

theorem recalculateTotalTime_reorder_witness:
  "recalculateTotalTime scenario = recalculateTotalTime (rev scenario)"
proof -
  have "mset (map dates (allTasks scenario)) = mset (map dates (allTasks (rev scenario)))"
    by code_simp
  then show ?thesis by (rule recalculateTotalTime_reorder)
qed

text \<open>
  Claim C7. When no task of any module has a start date, \<^verbatim>\<open>recalculateTotalTime\<close>
  returns \<^verbatim>\<open>"Not scheduled"\<close>: on the empty module list, and also when tasks
  carry an end date. The function has no operation that throws; it is total.
\<close>

theorem recalculateTotalTime_not_scheduled:
  assumes "\<forall>t \<in> set (allTasks ms). \<not> truthy (startDate t)"
  shows "recalculateTotalTime ms = ''Not scheduled''"
  using assms by (simp add: recalculateTotalTime_def scan_result)

theorem recalculateTotalTime_not_scheduled_witness:
  "recalculateTotalTime [] = ''Not scheduled'' \<and>
   recalculateTotalTime
     [exampleModule ''A'' [exampleTask ''X'' None (Some ''2024-03-01''),
        exampleTask ''Y'' (Some []) None]] = ''Not scheduled''"
proof -
  have "\<forall>t \<in> set (allTasks []). \<not> truthy (startDate t)"
    by (simp add: allTasks_def)
  moreover have "\<forall>t \<in> set (allTasks
     [exampleModule ''A'' [exampleTask ''X'' None (Some ''2024-03-01''),
        exampleTask ''Y'' (Some []) None]]). \<not> truthy (startDate t)"
    by (simp add: allTasks_def exampleModule_def exampleTask_def truthy_def)
  ultimately show ?thesis
    using recalculateTotalTime_not_scheduled by blast
qed

subsection \<open>The summary\<close>

lemma recalc_scheduled:
  assumes "\<exists>t \<in> set (allTasks ms). truthy (startDate t)"
  shows "recalculateTotalTime ms =
    (let minD = Min (insert maxTime (set (startTimes (allTasks ms))));
         maxD = Max (insert (- maxTime) (set (endTimes (allTasks ms))));
         diffDays = - ((- \<bar>maxD - minD\<bar>) div 86400000) + 1
     in if diffDays > 30 then string_of_number (Some ((2 * diffDays + 7) div 14)) @ '' weeks''
        else string_of_number (Some diffDays) @ '' days'')"
  using assms
  by (simp add: recalculateTotalTime_def scan_result Let_def getTime_def num_sub_def
      Math_abs_def Math_ceil_div_def num_add_def num_gt_def Math_round_div_def)

lemma ceil_div_real: "- ((- a) div 86400000) = \<lceil>real_of_int a / 86400000\<rceil>" for a :: int
proof -
  have "\<lceil>real_of_int a / real_of_int 86400000\<rceil> = - (- a div 86400000)"
    by (rule ceiling_divide_eq_div)
  then show ?thesis by simp
qed

lemma round_div_real: "(2 * v + 7) div 14 = round (real_of_int v / 7)" for v :: int
proof -
  have e: "real_of_int v / 7 + 1 / 2 = (2 * real_of_int v + 7) / 14"
    by (simp add: field_simps)
  have "\<lfloor>(2 * real_of_int v + 7) / 14\<rfloor> = (2 * v + 7) div 14"
    using floor_divide_of_int_eq [of "2 * v + 7" 14, where ?'a = real] by simp
  then show ?thesis
    unfolding round_def e by simp
qed

lemma startTimes_le: "v \<in> set (startTimes ts) \<Longrightarrow> v \<le> maxTime"
  by (auto simp: set_startTimes startTime_def split: if_splits dest: Date_of_string_range)

lemma endTimes_ge: "v \<in> set (endTimes ts) \<Longrightarrow> - maxTime \<le> v"
  by (auto simp: set_endTimes endTime_def split: if_splits dest: Date_of_string_range)

lemma Min_insert_bound:
  fixes m :: int
  assumes "finite S" "S \<noteq> {}" "\<forall>x \<in> S. x \<le> m"
  shows "Min (insert m S) = Min S"
proof -
  have "Min S \<le> m" using assms by (meson Min_in)
  moreover have "Min (insert m S) = min m (Min S)"
    using assms(1,2) by (rule Min_insert)
  ultimately show ?thesis by (simp only: min_absorb2)
qed

lemma Max_insert_bound:
  fixes m :: int
  assumes "finite S" "S \<noteq> {}" "\<forall>x \<in> S. m \<le> x"
  shows "Max (insert m S) = Max S"
proof -
  have "m \<le> Max S" using assms by (meson Max_in)
  moreover have "Max (insert m S) = max m (Max S)"
    using assms(1,2) by (rule Max_insert)
  ultimately show ?thesis by (simp only: max_absorb2)
qed

text \<open>
  Claim C6. When at least one task has a start date, and the dates of the tasks are dates,
  written with or without a time of day, \<^verbatim>\<open>recalculateTotalTime\<close> returns the summary
  of \<open>spanDays\<close>: with \<open>minDate\<close> the least start date and \<open>maxDate\<close> the greatest of the
  end dates (of the start date, for a task with no end date), \<open>diffDays\<close> is the ceiling
  of \<open>|maxDate - minDate|\<close> in days plus one; the result is \<open>diffDays / 7\<close> rounded to the
  nearest integer, followed by \<^verbatim>\<open>" weeks"\<close>, when \<open>diffDays > 30\<close>, and \<open>diffDays\<close>
  followed by \<^verbatim>\<open>" days"\<close> otherwise. The ceiling and the rounding are those of the
  real quotients (\<open>spanDays\<close>, \<open>summary\<close>): two dates two and a half days apart give
  four days, and sixty days and a half give sixty-two days, nine weeks.
\<close>

theorem recalculateTotalTime_summary:
  assumes some: "\<exists>t \<in> set (allTasks ms). truthy (startDate t)"
    and valid: "\<forall>t \<in> set (allTasks ms). validDates t"
  shows "recalculateTotalTime ms = summary (spanDays ms)"
proof -
  obtain t where t: "t \<in> set (allTasks ms)" "truthy (startDate t)"
    using some by blast
  have vt: "validDates t" using valid t(1) by blast
  have rd: "readable x \<Longrightarrow> Date_of_string x \<noteq> None" for x
    by (cases "Date_of_string x") (simp_all add: readable_def)
  have "startTime (dates t) \<noteq> None"
    using vt t(2) rd by (simp add: validDates_def startTime_def dates_def)
  then obtain v where v: "startTime (dates t) = Some v" by blast
  have "endTime (dates t) \<noteq> None"
    using vt t(2) rd
    by (cases "truthy (endDate t)") (simp_all add: validDates_def endTime_def dates_def)
  then obtain w where w: "endTime (dates t) = Some w" by blast
  have ne: "set (startTimes (allTasks ms)) \<noteq> {}" "set (endTimes (allTasks ms)) \<noteq> {}"
    using t(1) v w by (auto simp: set_startTimes set_endTimes)
  have mn: "Min (insert maxTime (set (startTimes (allTasks ms)))) =
            Min (set (startTimes (allTasks ms)))"
    using ne(1) startTimes_le by (intro Min_insert_bound) auto
  have mx: "Max (insert (- maxTime) (set (endTimes (allTasks ms)))) =
            Max (set (endTimes (allTasks ms)))"
    using ne(2) endTimes_ge by (intro Max_insert_bound) auto
  define a where "a = \<bar>Max (set (endTimes (allTasks ms))) - Min (set (startTimes (allTasks ms)))\<bar>"
  have a0: "0 \<le> a" by (simp add: a_def)
  have sp: "spanDays ms = - ((- a) div 86400000) + 1"
    by (simp add: spanDays_def a_def ceil_div_real Let_def)
  have pos: "1 \<le> spanDays ms"
    unfolding sp using a0 by (simp add: div_int_pos_iff)
  have r: "recalculateTotalTime ms =
     (if spanDays ms > 30 then string_of_number (Some ((2 * spanDays ms + 7) div 14)) @ '' weeks''
      else string_of_number (Some (spanDays ms)) @ '' days'')"
    unfolding recalc_scheduled [OF some] mn mx sp
    by (simp add: Let_def a_def)
  have wk: "0 \<le> (2 * spanDays ms + 7) div 14"
    using pos by (simp add: div_int_pos_iff)
  show ?thesis
    unfolding r summary_def using pos wk
    by (simp add: string_of_number_def round_div_real)
qed

theorem recalculateTotalTime_summary_witness:
  "recalculateTotalTime scenario = ''5 days'' \<and>
   spanDays scenarioTimed = 4 \<and> recalculateTotalTime scenarioTimed = ''4 days'' \<and>
   spanDays scenarioLong = 36 \<and> recalculateTotalTime scenarioLong = ''5 weeks'' \<and>
   spanDays scenarioLonger = 62 \<and> recalculateTotalTime scenarioLonger = ''9 weeks''"
proof -
  have 1: "recalculateTotalTime scenario = summary (spanDays scenario)"
  proof (rule recalculateTotalTime_summary)
    show "\<exists>t \<in> set (allTasks scenario). truthy (startDate t)" by code_simp
    show "\<forall>t \<in> set (allTasks scenario). validDates t" by code_simp
  qed
  have 2: "recalculateTotalTime scenarioTimed = summary (spanDays scenarioTimed)"
  proof (rule recalculateTotalTime_summary)
    show "\<exists>t \<in> set (allTasks scenarioTimed). truthy (startDate t)" by code_simp
    show "\<forall>t \<in> set (allTasks scenarioTimed). validDates t" by code_simp
  qed
  have 3: "recalculateTotalTime scenarioLong = summary (spanDays scenarioLong)"
  proof (rule recalculateTotalTime_summary)
    show "\<exists>t \<in> set (allTasks scenarioLong). truthy (startDate t)" by code_simp
    show "\<forall>t \<in> set (allTasks scenarioLong). validDates t" by code_simp
  qed
  have 4: "recalculateTotalTime scenarioLonger = summary (spanDays scenarioLonger)"
  proof (rule recalculateTotalTime_summary)
    show "\<exists>t \<in> set (allTasks scenarioLonger). truthy (startDate t)" by code_simp
    show "\<forall>t \<in> set (allTasks scenarioLonger). validDates t" by code_simp
  qed
  have s: "spanDays scenario = 5" "spanDays scenarioTimed = 4" "spanDays scenarioLong = 36"
    "spanDays scenarioLonger = 62"
    by code_simp+
  have p: "summary 5 = ''5 days''" "summary 4 = ''4 days''" "summary 36 = ''5 weeks''"
    "summary 62 = ''9 weeks''"
    by code_simp+
  show ?thesis unfolding 1 2 3 4 s p by simp
qed

section \<open>Properties of \<^verbatim>\<open>rescheduleRoadmap\<close>\<close>

subsection \<open>The two branches\<close>

text \<open>The task that the two \<^verbatim>\<open>find\<close> calls locate is the first task of the moved id in
  the global order.\<close>

lemma find_concat:
  "find P (concat xss) =
     (case find (list_ex P) xss of None \<Rightarrow> None | Some xs \<Rightarrow> find P xs)"
proof (induction xss)
  case Nil
  then show ?case by simp
next
  case (Cons xs xss)
  have app: "find P (xs @ ys) = (case find P xs of None \<Rightarrow> find P ys | Some x \<Rightarrow> Some x)" for ys
    by (induction xs) simp_all
  show ?case
  proof (cases "list_ex P xs")
    case True
    then obtain x where "find P xs = Some x"
      by (cases "find P xs") (auto simp: find_None_iff list_ex_iff)
    then show ?thesis using True by (simp add: app)
  next
    case False
    then have "find P xs = None" by (simp add: find_None_iff list_ex_iff)
    then show ?thesis using False Cons.IH by (simp add: app)
  qed
qed

lemma originalStartDate_find:
  "originalStartDate r mt =
     (case find (\<lambda>t. task_id t = task_id mt) (allTasks (modules r)) of
        None \<Rightarrow> None | Some t \<Rightarrow> startDate t)"
proof -
  have h: "find (list_ex P) (map tasks ms) = map_option tasks (find (\<lambda>m. list_ex P (tasks m)) ms)"
    for P ms
    by (induction ms) simp_all
  show ?thesis
    unfolding originalStartDate_def allTasks_def find_concat Let_def h
    by (cases "find (\<lambda>m. list_ex (\<lambda>t. task_id t = task_id mt) (tasks m)) (modules r)")
       simp_all
qed

lemma originalStartDate_None:
  assumes "task_id mt \<notin> task_id ` set (allTasks (modules r))"
  shows "originalStartDate r mt = None"
proof -
  have "find (\<lambda>t. task_id t = task_id mt) (allTasks (modules r)) = None"
    using assms by (force simp: find_None_iff image_iff)
  then show ?thesis by (simp add: originalStartDate_find)
qed

lemma fast_path:
  assumes "\<not> truthy (originalStartDate r mt) \<or> new = [] \<or> originalStartDate r mt = Some new"
  shows "rescheduleRoadmap r mt new =
    Inr (r\<lparr>modules := map (\<lambda>m. m\<lparr>tasks := map (setStart (task_id mt) new) (tasks m)\<rparr>)
                        (modules r)\<rparr>)"
  using assms unfolding rescheduleRoadmap_def Let_def setStart_def by auto

lemma cascade_path:
  assumes "truthy (originalStartDate r mt)" "new \<noteq> []" "originalStartDate r mt \<noteq> Some new"
  shows "rescheduleRoadmap r mt new =
    (case shiftModules (task_id mt) new
            (num_sub (getTime (Date_of_string new))
               (getTime (Date_of_string (str (originalStartDate r mt))))) False (modules r) of
       Inl e \<Rightarrow> Inl e
     | Inr ms' \<Rightarrow> Inr (r\<lparr>modules := ms', totalTimeEstimate := recalculateTotalTime ms'\<rparr>))"
  using assms unfolding rescheduleRoadmap_def Let_def by auto

lemma map_setStart_id:
  assumes "i \<notin> task_id ` set ts"
  shows "map (setStart i new) ts = ts"
  using assms by (induction ts) (auto simp: setStart_def)

lemma setStart_modules_id:
  assumes "i \<notin> task_id ` set (allTasks ms)"
  shows "map (\<lambda>m. m\<lparr>tasks := map (setStart i new) (tasks m)\<rparr>) ms = ms"
  using assms
proof (induction ms)
  case Nil
  then show ?case by simp
next
  case (Cons m ms)
  from Cons.prems have "i \<notin> task_id ` set (tasks m)" "i \<notin> task_id ` set (allTasks ms)"
    by (auto simp: allTasks_def)
  then show ?case using Cons.IH by (simp add: map_setStart_id)
qed

text \<open>
  Claim C4. When the id of the moved task occurs in no task of any module,
  \<^verbatim>\<open>rescheduleRoadmap\<close> returns, without throwing, a roadmap equal to its input, for
  every roadmap and every new start date.
\<close>

theorem rescheduleRoadmap_unknown_id:
  assumes "task_id mt \<notin> task_id ` set (allTasks (modules r))"
  shows "rescheduleRoadmap r mt new = Inr r"
proof -
  have "originalStartDate r mt = None" using assms by (rule originalStartDate_None)
  then have "rescheduleRoadmap r mt new =
    Inr (r\<lparr>modules := map (\<lambda>m. m\<lparr>tasks := map (setStart (task_id mt) new) (tasks m)\<rparr>)
                        (modules r)\<rparr>)"
    by (intro fast_path) (simp add: truthy_def)
  then show ?thesis by (simp add: setStart_modules_id [OF assms])
qed

theorem rescheduleRoadmap_unknown_id_witness:
  "rescheduleRoadmap (exampleRoadmap ''5 days'' scenario) (exampleTask ''Q'' None None)
     ''2024-02-01'' = Inr (exampleRoadmap ''5 days'' scenario)"
proof -
  have "task_id (exampleTask ''Q'' None None) \<notin>
        task_id ` set (allTasks (modules (exampleRoadmap ''5 days'' scenario)))"
    by code_simp
  then show ?thesis by (rule rescheduleRoadmap_unknown_id)
qed

subsection \<open>The cascade, task by task\<close>

lemma sameButDates_refl [simp]: "sameButDates t t"
  by (simp add: sameButDates_def)

lemma sameButDates_update [simp]:
  "sameButDates t (t\<lparr>startDate := s, endDate := e\<rparr>)"
  "sameButDates t (t\<lparr>startDate := s\<rparr>)"
  by (simp_all add: sameButDates_def)

lemma shiftEnd_Inr:
  "shiftEnd t d = Inr e \<Longrightarrow> endShifted d t (t\<lparr>startDate := s, endDate := e\<rparr>)"
  by (cases "addTime (str (endDate t)) d") (auto simp: shiftEnd_def endShifted_def split: if_splits)

lemma shiftTask_before:
  "task_id t \<noteq> i \<Longrightarrow> shiftTask i new d False t = Inr (t, False)"
  by (simp add: shiftTask_def)

lemma shiftTask_moved:
  assumes "task_id t = i" "shiftTask i new d f t = Inr (t', f')"
  shows "f' \<and> movedTo new d t t'"
  using assms
  by (auto simp: shiftTask_def movedTo_def shiftEnd_Inr split: sum.splits)

lemma shiftTask_after:
  assumes "task_id t \<noteq> i" "shiftTask i new d True t = Inr (t', f')"
  shows "f' \<and> shiftedBy d t t'"
  using assms
  by (auto simp: shiftTask_def shiftedBy_def shiftEnd_Inr split: sum.splits if_splits)

lemma shiftTask_frame:
  assumes "shiftTask i new d f t = Inr (t', f')"
  shows "sameButDates t t' \<and> (task_id t = i \<longrightarrow> startDate t' = Some new)"
  using assms
  by (auto simp: shiftTask_def split: sum.splits if_splits)

lemma shiftTasks_before:
  "i \<notin> task_id ` set ts \<Longrightarrow> shiftTasks i new d False ts = Inr (ts, False)"
  by (induction ts) (auto simp: shiftTask_before)

lemma shiftTasks_append:
  "shiftTasks i new d f (xs @ ys) =
     (case shiftTasks i new d f xs of
        Inl e \<Rightarrow> Inl e
      | Inr (xs', f') \<Rightarrow>
          (case shiftTasks i new d f' ys of
             Inl e \<Rightarrow> Inl e
           | Inr (ys', f'') \<Rightarrow> Inr (xs' @ ys', f'')))"
  by (induction xs arbitrary: f) (auto split: sum.splits)

lemma shiftTasks_after:
  assumes "i \<notin> task_id ` set ts" "shiftTasks i new d True ts = Inr (ts', f')"
  shows "f' \<and> list_all2 (shiftedBy d) ts ts'"
  using assms
proof (induction ts arbitrary: ts')
  case Nil
  then show ?case by simp
next
  case (Cons t ts)
  from Cons.prems(2) obtain t1 f1 where 1: "shiftTask i new d True t = Inr (t1, f1)"
    by (auto split: sum.splits)
  have 2: "f1" "shiftedBy d t t1"
    using shiftTask_after [OF _ 1] Cons.prems(1) by auto
  from Cons.prems(2) 1 2(1) obtain ts1 where 3: "shiftTasks i new d True ts = Inr (ts1, f')"
    "ts' = t1 # ts1"
    by (auto split: sum.splits)
  have "f' \<and> list_all2 (shiftedBy d) ts ts1"
    using Cons.IH [OF _ 3(1)] Cons.prems(1) by auto
  then show ?case using 2 3 by simp
qed

lemma shiftTasks_frame:
  assumes "shiftTasks i new d f ts = Inr (ts', f')"
  shows "list_all2 (\<lambda>t t'. sameButDates t t' \<and> (task_id t = i \<longrightarrow> startDate t' = Some new)) ts ts'"
  using assms
proof (induction ts arbitrary: ts' f)
  case Nil
  then show ?case by simp
next
  case (Cons t ts)
  from Cons.prems obtain t1 f1 where 1: "shiftTask i new d f t = Inr (t1, f1)"
    by (auto split: sum.splits)
  from Cons.prems 1 obtain ts1 where 3: "shiftTasks i new d f1 ts = Inr (ts1, f')"
    "ts' = t1 # ts1"
    by (auto split: sum.splits)
  show ?case using shiftTask_frame [OF 1] Cons.IH [OF 3(1)] 3(2) by simp
qed

lemma shiftModules_before:
  assumes "i \<notin> task_id ` set (allTasks ms1)"
  shows "shiftModules i new d False (ms1 @ ms) =
     (case shiftModules i new d False ms of Inl e \<Rightarrow> Inl e | Inr ms' \<Rightarrow> Inr (ms1 @ ms'))"
  using assms
proof (induction ms1)
  case Nil
  then show ?case by (simp split: sum.splits)
next
  case (Cons m ms1)
  from Cons.prems have a: "i \<notin> task_id ` set (tasks m)" "i \<notin> task_id ` set (allTasks ms1)"
    by (auto simp: allTasks_def)
  show ?case
    using Cons.IH [OF a(2)] by (simp add: shiftTasks_before [OF a(1)] split: sum.splits)
qed

lemma shiftModules_after:
  assumes "i \<notin> task_id ` set (allTasks ms)" "shiftModules i new d True ms = Inr ms'"
  shows "list_all2 (shiftedModule d) ms ms'"
  using assms
proof (induction ms arbitrary: ms')
  case Nil
  then show ?case by simp
next
  case (Cons m ms)
  from Cons.prems(1) have a: "i \<notin> task_id ` set (tasks m)" "i \<notin> task_id ` set (allTasks ms)"
    by (auto simp: allTasks_def)
  from Cons.prems(2) obtain ts1 f1 where 1: "shiftTasks i new d True (tasks m) = Inr (ts1, f1)"
    by (auto split: sum.splits)
  have 2: "f1" "list_all2 (shiftedBy d) (tasks m) ts1"
    using shiftTasks_after [OF a(1) 1] by auto
  from Cons.prems(2) 1 2(1) obtain ms1 where 3: "shiftModules i new d True ms = Inr ms1"
    "ms' = m\<lparr>tasks := ts1\<rparr> # ms1"
    by (auto split: sum.splits)
  show ?case using Cons.IH [OF a(2) 3(1)] 2(2) 3(2) by (simp add: shiftedModule_def)
qed

lemma shiftModules_frame:
  assumes "shiftModules i new d f ms = Inr ms'"
  shows "list_all2 sameButTasks ms ms' \<and>
         list_all2 (\<lambda>t t'. task_id t' = task_id t \<and> (task_id t = i \<longrightarrow> startDate t' = Some new))
           (allTasks ms) (allTasks ms')"
  using assms
proof (induction ms arbitrary: ms' f)
  case Nil
  then show ?case by (simp add: allTasks_def)
next
  case (Cons m ms)
  from Cons.prems obtain ts1 f1 where 1: "shiftTasks i new d f (tasks m) = Inr (ts1, f1)"
    by (auto split: sum.splits)
  from Cons.prems 1 obtain ms1 where 3: "shiftModules i new d f1 ms = Inr ms1"
    "ms' = m\<lparr>tasks := ts1\<rparr> # ms1"
    by (auto split: sum.splits)
  have fr: "list_all2 (\<lambda>t t'. sameButDates t t' \<and> (task_id t = i \<longrightarrow> startDate t' = Some new))
     (tasks m) ts1"
    using shiftTasks_frame [OF 1] .
  have 4: "list_all2 sameButDates (tasks m) ts1"
    using fr by (rule list_all2_mono) simp
  have 5: "list_all2 (\<lambda>t t'. task_id t' = task_id t \<and> (task_id t = i \<longrightarrow> startDate t' = Some new))
     (tasks m) ts1"
    using fr by (rule list_all2_mono) (simp add: sameButDates_def)
  show ?case
    using Cons.IH [OF 3(1)] 4 5 3(2)
    by (simp add: sameButTasks_def allTasks_def list_all2_appendI)
qed

subsection \<open>Frame, summary and fast path\<close>

lemma find_first:
  assumes "P x" "\<forall>y \<in> set xs. \<not> P y"
  shows "find P (xs @ x # ys) = Some x"
  using assms by (induction xs) simp_all

lemma allTasks_append: "allTasks (ms1 @ ms2) = allTasks ms1 @ allTasks ms2"
  by (simp add: allTasks_def)

lemma allTasks_Cons: "allTasks (m # ms) = tasks m @ allTasks ms"
  by (simp add: allTasks_def)

lemma originalStartDate_first:
  assumes "modules r = ms1 @ m # ms2" "tasks m = ts1 @ t # ts2" "task_id t = task_id mt"
    and "task_id mt \<notin> task_id ` set (allTasks ms1 @ ts1)"
  shows "originalStartDate r mt = startDate t"
proof -
  have "allTasks (modules r) = (allTasks ms1 @ ts1) @ t # (ts2 @ allTasks ms2)"
    using assms(1,2) by (simp add: allTasks_append allTasks_Cons)
  moreover have "\<forall>y \<in> set (allTasks ms1 @ ts1). \<not> task_id y = task_id mt"
    using assms(4) by (metis imageI)
  ultimately have "find (\<lambda>t. task_id t = task_id mt) (allTasks (modules r)) = Some t"
    using assms(3) by (simp only: find_first)
  then show ?thesis by (simp add: originalStartDate_find)
qed

text \<open>
  Claim C5. A roadmap that \<^verbatim>\<open>rescheduleRoadmap\<close> returns has the modules of its input,
  in number and order, each with the tasks of its input, in number and order; every field
  of the roadmap but \<^verbatim>\<open>totalTimeEstimate\<close>, every field of a module, and every field
  of a task but \<^verbatim>\<open>startDate\<close> and \<^verbatim>\<open>endDate\<close> is the one of the input. No task is
  created or deleted. (A call that throws returns no roadmap.)
\<close>

theorem rescheduleRoadmap_frame:
  assumes "rescheduleRoadmap r mt new = Inr r'"
  shows "sameButModules r r'"
proof (cases "\<not> truthy (originalStartDate r mt) \<or> new = [] \<or> originalStartDate r mt = Some new")
  case True
  have "list_all2 sameButDates ts (map (setStart i new) ts)" for ts i
    by (simp add: list_all2_map2 list_all2_same setStart_def)
  then have "list_all2 sameButTasks ms
     (map (\<lambda>m. m\<lparr>tasks := map (setStart (task_id mt) new) (tasks m)\<rparr>) ms)" for ms
    by (simp add: list_all2_map2 list_all2_same sameButTasks_def)
  then show ?thesis
    using assms unfolding fast_path [OF True] by (auto simp: sameButModules_def)
next
  case False
  then have c: "truthy (originalStartDate r mt)" "new \<noteq> []" "originalStartDate r mt \<noteq> Some new"
    by auto
  show ?thesis
    using assms unfolding cascade_path [OF c]
    by (auto simp: sameButModules_def split: sum.splits dest: shiftModules_frame)
qed

theorem rescheduleRoadmap_frame_witness:
  "rescheduleRoadmap (exampleRoadmap ''1 days'' scenario) (exampleTask ''X'' None None)
     ''2024-01-02'' = Inr (exampleRoadmap ''5 days'' scenarioMoved) \<and>
   sameButModules (exampleRoadmap ''1 days'' scenario) (exampleRoadmap ''5 days'' scenarioMoved)"
proof -
  have "rescheduleRoadmap (exampleRoadmap ''1 days'' scenario) (exampleTask ''X'' None None)
     ''2024-01-02'' = Inr (exampleRoadmap ''5 days'' scenarioMoved)"
    by code_simp
  then show ?thesis using rescheduleRoadmap_frame by blast
qed

text \<open>
  The fast path returns the roadmap with its \<^verbatim>\<open>totalTimeEstimate\<close> as it was, also when
  it has given a task its first start date: the summary of the returned roadmap is then
  not what \<^verbatim>\<open>recalculateTotalTime\<close> gives on its modules.
\<close>

theorem rescheduleRoadmap_total_stale:
  "rescheduleRoadmap unscheduled (exampleTask ''X'' None None) ''2024-01-02'' =
     Inr (exampleRoadmap ''Not scheduled''
            [exampleModule ''A'' [exampleTask ''X'' (Some ''2024-01-02'') None]]) \<and>
   totalTimeEstimate
     (exampleRoadmap ''Not scheduled''
        [exampleModule ''A'' [exampleTask ''X'' (Some ''2024-01-02'') None]]) =
     ''Not scheduled'' \<and>
   recalculateTotalTime
     (modules
        (exampleRoadmap ''Not scheduled''
           [exampleModule ''A'' [exampleTask ''X'' (Some ''2024-01-02'') None]])) =
     ''1 days''"
  by code_simp

text \<open>
  Claim C2, as amended. On the cascade path (the located task has a start date, the new
  start date is not empty and differs from it), the \<^verbatim>\<open>totalTimeEstimate\<close> of the
  returned roadmap is \<^verbatim>\<open>recalculateTotalTime\<close> of the returned modules. (The claim as
  stated, on every branch, fails as shown above.)
\<close>

theorem rescheduleRoadmap_cascade_total:
  assumes "truthy (originalStartDate r mt)" "new \<noteq> []" "originalStartDate r mt \<noteq> Some new"
    and "rescheduleRoadmap r mt new = Inr r'"
  shows "totalTimeEstimate r' = recalculateTotalTime (modules r')"
  using assms(4) unfolding cascade_path [OF assms(1,2,3)]
  by (auto split: sum.splits)

theorem rescheduleRoadmap_cascade_total_witness:
  "totalTimeEstimate (exampleRoadmap ''5 days'' scenarioMoved) =
   recalculateTotalTime (modules (exampleRoadmap ''5 days'' scenarioMoved))"
proof -
  let ?r = "exampleRoadmap ''1 days'' scenario" and ?mt = "exampleTask ''X'' None None"
  have "truthy (originalStartDate ?r ?mt)" by code_simp
  moreover have "''2024-01-02'' \<noteq> []" by simp
  moreover have "originalStartDate ?r ?mt \<noteq> Some ''2024-01-02''" by code_simp
  moreover have "rescheduleRoadmap ?r ?mt ''2024-01-02'' =
      Inr (exampleRoadmap ''5 days'' scenarioMoved)"
    by code_simp
  ultimately show ?thesis by (rule rescheduleRoadmap_cascade_total)
qed

text \<open>
  Claim C3. The fast path. Let the id of the moved task occur once in the roadmap, at task
  \<open>t\<close> of module \<open>m\<close>. If \<open>t\<close> has no start date, or the new start date is empty or equal
  to the start date of \<open>t\<close>, then \<^verbatim>\<open>rescheduleRoadmap\<close> returns the input roadmap with
  the \<^verbatim>\<open>startDate\<close> of \<open>t\<close> set to the new start date, and nothing else changed: no
  other task, no other field of \<open>t\<close>, not the \<^verbatim>\<open>totalTimeEstimate\<close>; nothing is shifted.
\<close>

theorem rescheduleRoadmap_fast_path:
  assumes "modules r = ms1 @ m # ms2" "tasks m = ts1 @ t # ts2" "task_id t = task_id mt"
    and "task_id mt \<notin> task_id ` set (allTasks ms1 @ ts1 @ ts2 @ allTasks ms2)"
    and "\<not> truthy (startDate t) \<or> new = [] \<or> startDate t = Some new"
  shows "rescheduleRoadmap r mt new =
    Inr (r\<lparr>modules := ms1 @ m\<lparr>tasks := ts1 @ t\<lparr>startDate := Some new\<rparr> # ts2\<rparr> # ms2\<rparr>)"
proof -
  have o: "originalStartDate r mt = startDate t"
    using assms(1,2,3) by (rule originalStartDate_first) (use assms(4) in auto)
  have n: "task_id mt \<notin> task_id ` set (allTasks ms1)" "task_id mt \<notin> task_id ` set ts1"
    "task_id mt \<notin> task_id ` set ts2" "task_id mt \<notin> task_id ` set (allTasks ms2)"
    using assms(4) by auto
  have "rescheduleRoadmap r mt new =
    Inr (r\<lparr>modules := map (\<lambda>m. m\<lparr>tasks := map (setStart (task_id mt) new) (tasks m)\<rparr>)
                        (modules r)\<rparr>)"
    by (rule fast_path) (use assms(5) o in simp)
  also have "map (\<lambda>m. m\<lparr>tasks := map (setStart (task_id mt) new) (tasks m)\<rparr>) (modules r) =
     ms1 @ m\<lparr>tasks := ts1 @ t\<lparr>startDate := Some new\<rparr> # ts2\<rparr> # ms2"
    unfolding assms(1)
    by (simp add: setStart_modules_id [OF n(1)] setStart_modules_id [OF n(4)] assms(2)
        map_setStart_id [OF n(2)] map_setStart_id [OF n(3)])
       (simp add: setStart_def assms(3))
  finally show ?thesis .
qed

theorem rescheduleRoadmap_fast_path_witness:
  "rescheduleRoadmap (exampleRoadmap ''5 days'' scenario) (exampleTask ''Y'' None None) [] =
     Inr (exampleRoadmap ''5 days'' scenarioCleared)"
proof -
  let ?X = "exampleTask ''X'' (Some ''2024-01-01'') None"
  let ?Y = "exampleTask ''Y'' (Some ''2024-01-03'') None"
  let ?B = "exampleModule ''B''
    [exampleTask ''Z'' (Some ''2024-01-05'') (Some ''2024-01-05''), exampleTask ''W'' None None]"
  let ?r = "exampleRoadmap ''5 days'' scenario"
  have "rescheduleRoadmap ?r (exampleTask ''Y'' None None) [] =
    Inr (?r\<lparr>modules := [] @ (exampleModule ''A'' [?X, ?Y])
            \<lparr>tasks := [?X] @ ?Y\<lparr>startDate := Some []\<rparr> # []\<rparr> # [?B]\<rparr>)"
  proof (rule rescheduleRoadmap_fast_path)
    show "modules ?r = [] @ exampleModule ''A'' [?X, ?Y] # [?B]"
      by (simp add: exampleRoadmap_def scenario_def)
    show "tasks (exampleModule ''A'' [?X, ?Y]) = [?X] @ ?Y # []"
      by (simp add: exampleModule_def)
    show "task_id ?Y = task_id (exampleTask ''Y'' None None)"
      by (simp add: exampleTask_def)
    show "task_id (exampleTask ''Y'' None None) \<notin>
        task_id ` set (allTasks [] @ [?X] @ [] @ allTasks [?B])"
      by (simp add: allTasks_def exampleModule_def exampleTask_def)
    show "\<not> truthy (startDate ?Y) \<or> [] = ([] :: string) \<or> startDate ?Y = Some []"
      by simp
  qed
  then show ?thesis
    by (simp add: exampleRoadmap_def exampleModule_def exampleTask_def scenario_def
        scenarioCleared_def)
qed

subsection \<open>Rescheduling twice\<close>

text \<open>A roadmap in which every task of the moved id already has the new start date is
  returned as it is; and a call that returns leaves its roadmap so.\<close>

lemma reschedule_fixed:
  assumes "\<forall>t \<in> set (allTasks (modules r)). task_id t = task_id mt \<longrightarrow> startDate t = Some new"
  shows "rescheduleRoadmap r mt new = Inr r"
proof -
  have o: "originalStartDate r mt = None \<or> originalStartDate r mt = Some new"
  proof (cases "find (\<lambda>t. task_id t = task_id mt) (allTasks (modules r))")
    case None
    then show ?thesis by (simp add: originalStartDate_find)
  next
    case (Some t)
    then have "t \<in> set (allTasks (modules r))" "task_id t = task_id mt"
      by (auto simp: find_Some_iff)
    then show ?thesis using assms Some by (simp add: originalStartDate_find)
  qed
  have "map (setStart (task_id mt) new) ts = ts"
    if "\<forall>t \<in> set ts. task_id t = task_id mt \<longrightarrow> startDate t = Some new" for ts
    using that by (induction ts) (auto simp: setStart_def)
  then have "map (\<lambda>m. m\<lparr>tasks := map (setStart (task_id mt) new) (tasks m)\<rparr>) ms = ms"
    if "\<forall>t \<in> set (allTasks ms). task_id t = task_id mt \<longrightarrow> startDate t = Some new" for ms
    using that by (induction ms) (auto simp: allTasks_def)
  then have m: "map (\<lambda>m. m\<lparr>tasks := map (setStart (task_id mt) new) (tasks m)\<rparr>) (modules r)
      = modules r"
    using assms by blast
  have "rescheduleRoadmap r mt new =
    Inr (r\<lparr>modules := map (\<lambda>m. m\<lparr>tasks := map (setStart (task_id mt) new) (tasks m)\<rparr>)
                        (modules r)\<rparr>)"
    by (rule fast_path) (use o in \<open>auto simp: truthy_def\<close>)
  then show ?thesis by (simp add: m)
qed

lemma reschedule_sets_start:
  assumes "rescheduleRoadmap r mt new = Inr r'"
  shows "\<forall>t \<in> set (allTasks (modules r')). task_id t = task_id mt \<longrightarrow> startDate t = Some new"
proof (cases "\<not> truthy (originalStartDate r mt) \<or> new = [] \<or> originalStartDate r mt = Some new")
  case True
  have "allTasks (map (\<lambda>m. m\<lparr>tasks := map (setStart i new) (tasks m)\<rparr>) ms) =
        map (setStart i new) (allTasks ms)" for i ms
    by (induction ms) (simp_all add: allTasks_def)
  then show ?thesis
    using assms unfolding fast_path [OF True] by (auto simp: setStart_def split: if_splits)
next
  case False
  then have c: "truthy (originalStartDate r mt)" "new \<noteq> []" "originalStartDate r mt \<noteq> Some new"
    by auto
  from assms obtain ms' where ms': "shiftModules (task_id mt) new
            (num_sub (getTime (Date_of_string new))
               (getTime (Date_of_string (str (originalStartDate r mt))))) False (modules r) = Inr ms'"
    "modules r' = ms'"
    unfolding cascade_path [OF c] by (auto split: sum.splits)
  have l: "list_all2 (\<lambda>t t'. task_id t' = task_id t \<and> (task_id t = task_id mt \<longrightarrow> startDate t' = Some new))
           (allTasks (modules r)) (allTasks ms')"
    using shiftModules_frame [OF ms'(1)] by blast
  show ?thesis
  proof (intro ballI impI)
    fix t' assume "t' \<in> set (allTasks (modules r'))" "task_id t' = task_id mt"
    then obtain k where k: "k < length (allTasks ms')" "allTasks ms' ! k = t'"
      using ms'(2) by (auto simp: in_set_conv_nth)
    then show "startDate t' = Some new"
      using list_all2_nthD2 [OF l k(1)] \<open>task_id t' = task_id mt\<close> by auto
  qed
qed

lemma reschedule_twice:
  assumes "rescheduleRoadmap r mt new = Inr r'"
  shows "rescheduleRoadmap r' mt new = Inr r'"
  using reschedule_sets_start [OF assms] by (rule reschedule_fixed)

subsection \<open>The cascade path\<close>

text \<open>
  Claim C1. The cascade path. Let the id of the moved task occur once in the roadmap, at
  task \<open>t\<close> of module \<open>m\<close>, after the modules \<open>ms1\<close> and the tasks \<open>ts1\<close> of \<open>m\<close> and before
  the tasks \<open>ts2\<close> of \<open>m\<close> and the modules \<open>ms2\<close>; let \<open>t\<close> have a start date and the new
  start date be non-empty and another one; let \<open>delta\<close> be the new start date minus the
  start date of \<open>t\<close>, in milliseconds. Then in the roadmap that \<^verbatim>\<open>rescheduleRoadmap\<close>
  returns, \<open>ms1\<close> and \<open>ts1\<close> are unchanged; \<open>t\<close> has the new start date, and its end date,
  if any, shifted by \<open>delta\<close> with \<^verbatim>\<open>addTime\<close>; every task of \<open>ts2\<close> and of the modules
  \<open>ms2\<close> that has a start date has its start date, and its end date if any, shifted by
  \<open>delta\<close> with \<^verbatim>\<open>addTime\<close>, and every one with no start date is unchanged.
\<close>

theorem rescheduleRoadmap_cascade:
  assumes "modules r = ms1 @ m # ms2" "tasks m = ts1 @ t # ts2" "task_id t = task_id mt"
    and "task_id mt \<notin> task_id ` set (allTasks ms1 @ ts1 @ ts2 @ allTasks ms2)"
    and "truthy (startDate t)" "new \<noteq> []" "startDate t \<noteq> Some new"
    and "rescheduleRoadmap r mt new = Inr r'"
    and "delta = num_sub (getTime (Date_of_string new)) (getTime (Date_of_string (str (startDate t))))"
  shows "\<exists>t' ts2' ms2'.
     modules r' = ms1 @ m\<lparr>tasks := ts1 @ t' # ts2'\<rparr> # ms2' \<and>
     movedTo new delta t t' \<and>
     list_all2 (shiftedBy delta) ts2 ts2' \<and>
     list_all2 (shiftedModule delta) ms2 ms2'"
proof -
  let ?i = "task_id mt"
  have o: "originalStartDate r mt = startDate t"
    using assms(1,2,3) by (rule originalStartDate_first) (use assms(4) in auto)
  have n: "?i \<notin> task_id ` set (allTasks ms1)" "?i \<notin> task_id ` set ts1"
    "?i \<notin> task_id ` set ts2" "?i \<notin> task_id ` set (allTasks ms2)"
    using assms(4) by auto
  have c: "truthy (originalStartDate r mt)" "new \<noteq> []" "originalStartDate r mt \<noteq> Some new"
    using assms(5,6,7) o by simp_all
  from assms(8) obtain ms' where ms': "shiftModules ?i new delta False (modules r) = Inr ms'"
    "modules r' = ms'"
    unfolding cascade_path [OF c] o assms(9) by (auto split: sum.splits)
  from ms'(1) obtain msr where msr: "shiftModules ?i new delta False (m # ms2) = Inr msr"
    "ms' = ms1 @ msr"
    unfolding assms(1) shiftModules_before [OF n(1)] by (auto split: sum.splits)
  from msr(1) obtain ts' f1 ms2' where m1: "shiftTasks ?i new delta False (tasks m) = Inr (ts', f1)"
    "shiftModules ?i new delta f1 ms2 = Inr ms2'" "msr = m\<lparr>tasks := ts'\<rparr> # ms2'"
    by (auto split: sum.splits)
  from m1(1) obtain tr f2 where tr: "shiftTasks ?i new delta False (t # ts2) = Inr (tr, f2)"
    "ts' = ts1 @ tr" "f1 = f2"
    unfolding assms(2) shiftTasks_append [of _ _ _ _ ts1] shiftTasks_before [OF n(2)]
    by (auto split: sum.splits)
  from tr(1) obtain t' f3 ts2' where t': "shiftTask ?i new delta False t = Inr (t', f3)"
    "shiftTasks ?i new delta f3 ts2 = Inr (ts2', f2)" "tr = t' # ts2'"
    by (auto split: sum.splits)
  have mv: "f3" "movedTo new delta t t'"
    using shiftTask_moved [OF assms(3) t'(1)] by auto
  have af: "f2" "list_all2 (shiftedBy delta) ts2 ts2'"
    using shiftTasks_after [OF n(3)] t'(2) mv(1) by auto
  have am: "list_all2 (shiftedModule delta) ms2 ms2'"
    using shiftModules_after [OF n(4)] m1(2) tr(3) af(1) by auto
  have "modules r' = ms1 @ m\<lparr>tasks := ts1 @ t' # ts2'\<rparr> # ms2'"
    using ms'(2) msr(2) m1(3) tr(2) t'(3) by simp
  then show ?thesis using mv(2) af(2) am by blast
qed

theorem rescheduleRoadmap_cascade_witness:
  "\<exists>t' ts2' ms2'.
     scenarioMoved =
       (exampleModule ''A''
          [exampleTask ''X'' (Some ''2024-01-01'') None,
           exampleTask ''Y'' (Some ''2024-01-03'') None])\<lparr>tasks := t' # ts2'\<rparr> # ms2' \<and>
     movedTo ''2024-01-02'' (Some 86400000) (exampleTask ''X'' (Some ''2024-01-01'') None) t' \<and>
     list_all2 (shiftedBy (Some 86400000)) [exampleTask ''Y'' (Some ''2024-01-03'') None] ts2' \<and>
     list_all2 (shiftedModule (Some 86400000))
       [exampleModule ''B''
          [exampleTask ''Z'' (Some ''2024-01-05'') (Some ''2024-01-05''),
           exampleTask ''W'' None None]]
       ms2'"
proof -
  let ?X = "exampleTask ''X'' (Some ''2024-01-01'') None"
  let ?Y = "exampleTask ''Y'' (Some ''2024-01-03'') None"
  let ?A = "exampleModule ''A'' [?X, ?Y]"
  let ?B = "exampleModule ''B''
    [exampleTask ''Z'' (Some ''2024-01-05'') (Some ''2024-01-05''), exampleTask ''W'' None None]"
  let ?r = "exampleRoadmap ''1 days'' scenario" and ?mt = "exampleTask ''X'' None None"
  have "\<exists>t' ts2' ms2'.
     modules (exampleRoadmap ''5 days'' scenarioMoved) =
       [] @ ?A\<lparr>tasks := [] @ t' # ts2'\<rparr> # ms2' \<and>
     movedTo ''2024-01-02'' (Some 86400000) ?X t' \<and>
     list_all2 (shiftedBy (Some 86400000)) [?Y] ts2' \<and>
     list_all2 (shiftedModule (Some 86400000)) [?B] ms2'"
  proof (rule rescheduleRoadmap_cascade [where r = ?r and mt = ?mt])
    show "modules ?r = [] @ ?A # [?B]"
      by (simp add: exampleRoadmap_def scenario_def)
    show "tasks ?A = [] @ ?X # [?Y]"
      by (simp add: exampleModule_def)
    show "task_id ?X = task_id ?mt"
      by (simp add: exampleTask_def)
    show "task_id ?mt \<notin> task_id ` set (allTasks [] @ [] @ [?Y] @ allTasks [?B])"
      by (simp add: allTasks_def exampleModule_def exampleTask_def)
    show "truthy (startDate ?X)"
      by (simp add: exampleTask_def truthy_def)
    show "''2024-01-02'' \<noteq> []" by simp
    show "startDate ?X \<noteq> Some ''2024-01-02''"
      by (simp add: exampleTask_def)
    show "rescheduleRoadmap ?r ?mt ''2024-01-02'' = Inr (exampleRoadmap ''5 days'' scenarioMoved)"
      by code_simp
    show "Some 86400000 =
        num_sub (getTime (Date_of_string ''2024-01-02''))
          (getTime (Date_of_string (str (startDate ?X))))"
      by code_simp
  qed
  then show ?thesis by (simp add: exampleRoadmap_def)
qed

subsection \<open>Well-formed roadmaps\<close>

lemma shiftEnd_total:
  assumes "wellFormedTask t" "\<bar>d\<bar> \<le> 2 * 259200000000000"
  shows "\<exists>e. shiftEnd t (Some d) = Inr e"
proof (cases "truthy (endDate t)")
  case True
  then have "wellFormedDate (str (endDate t))" using assms(1) by (simp add: wellFormedTask_def)
  then obtain s' where "addTime (str (endDate t)) (Some d) = Inr s'"
    using addTime_total assms(2) by blast
  then show ?thesis using True by (simp add: shiftEnd_def)
next
  case False
  then show ?thesis by (simp add: shiftEnd_def)
qed

lemma shiftTask_total:
  assumes "wellFormedTask t" "\<bar>d\<bar> \<le> 2 * 259200000000000"
  shows "\<exists>t' f'. shiftTask i new (Some d) f t = Inr (t', f')"
proof -
  obtain e where e: "shiftEnd t (Some d) = Inr e"
    using shiftEnd_total [OF assms] by blast
  show ?thesis
  proof (cases "truthy (startDate t)")
    case True
    then have "wellFormedDate (str (startDate t))" using assms(1) by (simp add: wellFormedTask_def)
    then obtain s' where "addTime (str (startDate t)) (Some d) = Inr s'"
      using addTime_total assms(2) by blast
    then show ?thesis using e by (auto simp: shiftTask_def)
  next
    case False
    then show ?thesis using e by (auto simp: shiftTask_def)
  qed
qed

lemma shiftTasks_total:
  assumes "\<forall>t \<in> set ts. wellFormedTask t" "\<bar>d\<bar> \<le> 2 * 259200000000000"
  shows "\<exists>ts' f'. shiftTasks i new (Some d) f ts = Inr (ts', f')"
  using assms(1)
proof (induction ts arbitrary: f)
  case Nil
  then show ?case by simp
next
  case (Cons t ts)
  obtain t' f1 where 1: "shiftTask i new (Some d) f t = Inr (t', f1)"
    using shiftTask_total [OF _ assms(2)] Cons.prems by (meson list.set_intros(1))
  obtain ts' f2 where 2: "shiftTasks i new (Some d) f1 ts = Inr (ts', f2)"
    using Cons.IH [of f1] Cons.prems by auto
  show ?case using 1 2 by simp
qed

lemma shiftModules_total:
  assumes "\<forall>t \<in> set (allTasks ms). wellFormedTask t" "\<bar>d\<bar> \<le> 2 * 259200000000000"
  shows "\<exists>ms'. shiftModules i new (Some d) f ms = Inr ms'"
  using assms(1)
proof (induction ms arbitrary: f)
  case Nil
  then show ?case by simp
next
  case (Cons m ms)
  from Cons.prems have w: "\<forall>t \<in> set (tasks m). wellFormedTask t"
    "\<forall>t \<in> set (allTasks ms). wellFormedTask t"
    by (simp_all add: allTasks_def)
  obtain ts' f1 where 1: "shiftTasks i new (Some d) f (tasks m) = Inr (ts', f1)"
    using shiftTasks_total [OF w(1) assms(2)] by blast
  obtain ms' where 2: "shiftModules i new (Some d) f1 ms = Inr ms'"
    using Cons.IH [OF w(2)] by blast
  show ?case using 1 2 by simp
qed

text \<open>On a roadmap of well-formed tasks, with a new start date that is empty or
  well-formed, \<^verbatim>\<open>rescheduleRoadmap\<close> does not throw: no shift of a four-digit year by
  the difference of two four-digit years leaves the range of \<^verbatim>\<open>Date\<close>.\<close>

theorem rescheduleRoadmap_returns:
  assumes wf: "\<forall>t \<in> set (allTasks (modules r)). wellFormedTask t"
    and new: "new = [] \<or> wellFormedDate new"
  shows "\<exists>r'. rescheduleRoadmap r mt new = Inr r'"
proof (cases "\<not> truthy (originalStartDate r mt) \<or> new = [] \<or> originalStartDate r mt = Some new")
  case True
  then show ?thesis by (simp add: fast_path)
next
  case False
  then have c: "truthy (originalStartDate r mt)" "new \<noteq> []" "originalStartDate r mt \<noteq> Some new"
    by auto
  have "\<exists>t. t \<in> set (allTasks (modules r)) \<and> originalStartDate r mt = startDate t"
  proof (cases "find (\<lambda>t. task_id t = task_id mt) (allTasks (modules r))")
    case None
    then show ?thesis using c(1) by (simp add: originalStartDate_find truthy_def)
  next
    case (Some t)
    then have "t \<in> set (allTasks (modules r))" by (auto simp: find_Some_iff)
    then show ?thesis using Some by (auto simp: originalStartDate_find)
  qed
  then obtain t where t: "t \<in> set (allTasks (modules r))" "originalStartDate r mt = startDate t"
    by blast
  have wa: "wellFormedDate (str (originalStartDate r mt))"
    using wf t c(1) by (auto simp: wellFormedTask_def)
  then obtain a where a0: "Date_of_string (str (originalStartDate r mt)) = Some a"
    by (auto simp: wellFormedDate_def)
  note a = a0 wellFormedDate_bound [OF wa a0]
  have wb: "wellFormedDate new" using new c(2) by simp
  then obtain b where b0: "Date_of_string new = Some b"
    by (auto simp: wellFormedDate_def)
  note b = b0 wellFormedDate_bound [OF wb b0]
  have d: "num_sub (getTime (Date_of_string new))
             (getTime (Date_of_string (str (originalStartDate r mt)))) = Some (b - a)"
    by (simp add: a b num_sub_def getTime_def)
  have "\<bar>b - a\<bar> \<le> 2 * 259200000000000" using a(2) b(2) by linarith
  then obtain ms' where "shiftModules (task_id mt) new (Some (b - a)) False (modules r) = Inr ms'"
    using shiftModules_total [OF wf] by blast
  then show ?thesis unfolding cascade_path [OF c] d by simp
qed

text \<open>
  Claim C10. \<^verbatim>\<open>rescheduleRoadmap\<close> is idempotent: on a roadmap whose task dates are
  well-formed or absent, with a new start date that is well-formed or empty, the call
  returns a roadmap, and the same call on that roadmap returns it unchanged. The first
  call leaves every task of the moved id with the new start date, so the second call
  takes the fast path and finds nothing to change (lemma \<open>reschedule_twice\<close>, which holds
  for every call that returns).
\<close>

theorem rescheduleRoadmap_idempotent:
  assumes "\<forall>t \<in> set (allTasks (modules r)). wellFormedTask t"
    and "new = [] \<or> wellFormedDate new"
  shows "\<exists>r'. rescheduleRoadmap r mt new = Inr r' \<and> rescheduleRoadmap r' mt new = Inr r'"
  using rescheduleRoadmap_returns [OF assms] reschedule_twice by blast

theorem rescheduleRoadmap_idempotent_witness:
  "(\<exists>r'. rescheduleRoadmap (exampleRoadmap ''1 days'' scenario) (exampleTask ''X'' None None)
           ''2024-01-02'' = Inr r' \<and>
         rescheduleRoadmap r' (exampleTask ''X'' None None) ''2024-01-02'' = Inr r') \<and>
   rescheduleRoadmap (exampleRoadmap ''1 days'' scenario) (exampleTask ''X'' None None)
     ''2024-01-02'' = Inr (exampleRoadmap ''5 days'' scenarioMoved)"
proof -
  have "\<forall>t \<in> set (allTasks (modules (exampleRoadmap ''1 days'' scenario))). wellFormedTask t"
    by code_simp
  moreover have "''2024-01-02'' = [] \<or> wellFormedDate ''2024-01-02''"
    by code_simp
  ultimately have "\<exists>r'. rescheduleRoadmap (exampleRoadmap ''1 days'' scenario)
           (exampleTask ''X'' None None) ''2024-01-02'' = Inr r' \<and>
         rescheduleRoadmap r' (exampleTask ''X'' None None) ''2024-01-02'' = Inr r'"
    by (rule rescheduleRoadmap_idempotent)
  moreover have "rescheduleRoadmap (exampleRoadmap ''1 days'' scenario)
     (exampleTask ''X'' None None) ''2024-01-02'' = Inr (exampleRoadmap ''5 days'' scenarioMoved)"
    by code_simp
  ultimately show ?thesis by blast
qed

end
